theory Spec2Isabelle
  imports Main "HOL-Library.Code_Target_Numeral"
begin

section \<open>Data model\<close>

text \<open>
  The entity \<open>User\<close> (\<open>entity/User\<close>) is not among the sources; its columns are the
  ones the resolvers read and write (\<open>id\<close>, \<open>email\<close>, \<open>username\<close>, \<open>password\<close>,
  \<open>token_version\<close>, \<open>verified\<close>), which is also the user record of the specification.
  The column \<open>id\<close> is called \<open>id_user\<close> here, since \<open>id\<close> is the identity function of HOL.
  Numbers are integers of unbounded size: identifiers and versions stay far below
  \<open>2^53\<close>, where a JavaScript number is an exact integer.
\<close>

record User =
  id_user :: int
  email :: string
  username :: string
  password :: string
  token_version :: int
  verified :: bool

text \<open>\<open>utils/types.ts\<close>: \<open>AuthPayload = { user_id: number; token_version: number }\<close>.
  The route obtains it by an unchecked cast of the verified payload, so a payload
  without the field \<open>token_version\<close> reads as \<open>undefined\<close>: \<open>None\<close> here.\<close>

record AuthPayload =
  user_id :: int
  payload_token_version :: "int option"

text \<open>
  A JSON web token, symbolically: either a string that is no token at all, or a claim
  set signed with a secret. Signatures cannot be forged: the only way to a token that
  verifies under a secret is the constructor \<open>Signed\<close> with that secret.
\<close>

datatype jwt =
    Malformed string
  | Signed (jwt_secret: string) (jwt_payload: AuthPayload) (jwt_iat: nat) (jwt_exp: nat)

record FieldError =
  field :: string
  message :: string

record Auth =
  access_token :: jwt
  expires_in :: nat

record UserResponse =
  errors :: "FieldError list option"
  user :: "User option"

record AuthResponse = UserResponse +
  auth :: "Auth option"

text \<open>A cookie set on the HTTP response by \<open>res.cookie(name, value, {httpOnly, path})\<close>.\<close>

record cookie =
  cookie_name :: string
  cookie_value :: jwt
  httpOnly :: bool
  path :: string

text \<open>An e-mail handed to \<open>sendEmail(to, subject, body)\<close>.\<close>

record mail =
  mail_to :: string
  mail_subject :: string
  mail_body :: string

text \<open>An entry of the Redis cache: the value and the second at which it expires.\<close>

record redis_entry =
  entry_value :: string
  entry_expires_at :: nat

text \<open>A command that writes to the cache, as a resolver sends it: \<open>DEL key\<close> and
  \<open>SET key value EX seconds\<close>.\<close>

datatype redis_command = DEL string | SET_EX string string nat

text \<open>
  The state the server works on: the table of users (PostgreSQL), the cache (Redis),
  the e-mails sent so far, and the commands that wrote to the cache, in the order the
  resolvers sent them. The clock is an argument \<open>now\<close> of every operation, in
  seconds.
\<close>

record server_state =
  users :: "User list"
  redis :: "string \<rightharpoonup> redis_entry"
  outbox :: "mail list"
  cache_writes :: "redis_command list"

text \<open>What \<open>User.create(...).save()\<close> throws.\<close>

datatype db_error =
    QueryFailedError (err_code: string) (err_detail: string)
  | OtherError string

text \<open>
  The configuration and the collaborators that are not among the sources:
  \<open>utils/constants\<close> (\<open>ACCESS_TOKEN_EXPIRES_IN\<close>, \<open>FORGOT_PASSWORD_PREFIX\<close>,
  \<open>VERIFY_EMAIL_PREFIX\<close>), the environment (\<open>REFRESH_TOKEN_SECRET\<close>,
  \<open>ACCESS_TOKEN_SECRET\<close>), the lifetime of a refresh token, the password hashing of
  \<open>argon2\<close> and the insertion of a row by \<open>User.create(...).save()\<close>, which either
  throws or returns the row it stored.
\<close>

record config =
  ACCESS_TOKEN_EXPIRES_IN :: nat
  REFRESH_TOKEN_EXPIRES_IN :: nat
  ACCESS_TOKEN_SECRET :: string
  REFRESH_TOKEN_SECRET :: string
  FORGOT_PASSWORD_PREFIX :: string
  VERIFY_EMAIL_PREFIX :: string
  argon2_hash :: "string \<Rightarrow> string"
  argon2_verify :: "string \<Rightarrow> string \<Rightarrow> bool"
  User_save :: "User list \<Rightarrow> string \<Rightarrow> string \<Rightarrow> string \<Rightarrow> db_error + User"

text \<open>A resolver either returns a value or throws.\<close>

datatype 'a outcome = Returned 'a | Thrown string

section \<open>JavaScript strings and numbers\<close>

definition digit_char :: "nat \<Rightarrow> char" where
  "digit_char d = ''0123456789'' ! d"

function string_of_nat :: "nat \<Rightarrow> string" where
  "string_of_nat n =
     (if n < 10 then [digit_char n] else string_of_nat (n div 10) @ [digit_char (n mod 10)])"
  by pat_completeness auto
termination
  by (relation "measure (\<lambda>n. n)") auto

declare string_of_nat.simps [simp del]

text \<open>\<open>String(n)\<close> for an integer \<open>n\<close>, as string concatenation and template literals
  use it.\<close>

definition string_of_number :: "int \<Rightarrow> string" where
  "string_of_number i =
     (if i < 0 then CHR ''-'' # string_of_nat (nat (- i)) else string_of_nat (nat i))"

text \<open>\<open>s.split(":")\<close>: the pieces between the separators; never the empty list.\<close>

fun split :: "char \<Rightarrow> string \<Rightarrow> string list" where
  "split sep [] = [[]]"
| "split sep (c # cs) =
     (if c = sep then [] # split sep cs
      else (case split sep cs of
              [] \<Rightarrow> [[c]]
            | p # ps \<Rightarrow> (c # p) # ps))"

text \<open>\<open>xs[i]\<close>: \<open>undefined\<close> (here \<open>None\<close>) out of range.\<close>

definition at_index :: "'a list \<Rightarrow> nat \<Rightarrow> 'a option" where
  "at_index xs i = (if i < length xs then Some (xs ! i) else None)"

definition is_space :: "char \<Rightarrow> bool" where
  "is_space c = (c \<in> set [CHR 0x20, CHR 0x09, CHR 0x0A, CHR 0x0B, CHR 0x0C, CHR 0x0D])"

definition digit_value :: "char \<Rightarrow> nat option" where
  "digit_value c =
     (let n = of_char c :: nat in
      if 48 \<le> n \<and> n \<le> 57 then Some (n - 48)
      else if 97 \<le> n \<and> n \<le> 102 then Some (n - 87)
      else if 65 \<le> n \<and> n \<le> 70 then Some (n - 55)
      else None)"

definition is_digit :: "nat \<Rightarrow> char \<Rightarrow> bool" where
  "is_digit radix c = (case digit_value c of None \<Rightarrow> False | Some d \<Rightarrow> d < radix)"

definition digits_value :: "nat \<Rightarrow> string \<Rightarrow> nat" where
  "digits_value radix ds = foldl (\<lambda>a c. a * radix + (case digit_value c of None \<Rightarrow> 0 | Some d \<Rightarrow> d)) 0 ds"

text \<open>
  \<open>parseInt(s)\<close> without a radix: leading ASCII white space is skipped, a sign is read, the
  prefix \<open>0x\<close> or \<open>0X\<close> selects radix 16, and the longest run of digits is the number;
  \<open>NaN\<close> (here \<open>None\<close>) if that run is empty.
\<close>

definition parseInt :: "string \<Rightarrow> int option" where
  "parseInt s =
     (let s1 = dropWhile is_space s;
          neg = (case s1 of c # _ \<Rightarrow> c = CHR ''-'' | [] \<Rightarrow> False);
          s2 = (case s1 of c # r \<Rightarrow> if c = CHR ''-'' \<or> c = CHR ''+'' then r else s1 | [] \<Rightarrow> s1);
          hex = (take 2 s2 = ''0x'' \<or> take 2 s2 = ''0X'');
          radix = (if hex then 16 else 10);
          s3 = (if hex then drop 2 s2 else s2);
          ds = takeWhile (is_digit radix) s3
      in if ds = [] then None
         else Some ((if neg then - 1 else 1) * int (digits_value radix ds)))"

fun starts_with :: "string \<Rightarrow> string \<Rightarrow> bool" where
  "starts_with s [] = True"
| "starts_with [] (p # ps) = False"
| "starts_with (c # cs) (p # ps) = (c = p \<and> starts_with cs ps)"

text \<open>\<open>s.includes(pat)\<close>: \<open>pat\<close> occurs in \<open>s\<close> as a substring.\<close>

fun includes_str :: "string \<Rightarrow> string \<Rightarrow> bool" where
  "includes_str [] pat = (pat = [])"
| "includes_str (c # cs) pat = (starts_with (c # cs) pat \<or> includes_str cs pat)"

section \<open>Collaborators\<close>

subsection \<open>The table of users\<close>

text \<open>\<open>User.findOne({ where: { email } })\<close> and \<open>User.findOne({ where: { id } })\<close>.\<close>

definition findOne_email :: "User list \<Rightarrow> string \<Rightarrow> User option" where
  "findOne_email us e = List.find (\<lambda>u. email u = e) us"

definition findOne_id :: "User list \<Rightarrow> int \<Rightarrow> User option" where
  "findOne_id us i = List.find (\<lambda>u. id_user u = i) us"

text \<open>
  \<open>update(User).set(f).where({ id: i }).returning("*").execute()\<close>: the table after the
  update, and \<open>result.raw\<close>, the updated rows.
\<close>

definition update_where_id :: "User list \<Rightarrow> int \<Rightarrow> (User \<Rightarrow> User) \<Rightarrow> User list \<times> User list" where
  "update_where_id us i f =
     (map (\<lambda>u. if id_user u = i then f u else u) us,
      map f (filter (\<lambda>u. id_user u = i) us))"

subsection \<open>The cache\<close>

text \<open>
  The commands of Redis the resolvers call. \<open>SET key value EX n\<close> stores the value with
  a time to live of \<open>n\<close> seconds (\<open>EX\<close> takes seconds, \<open>PX\<close> milliseconds); an entry
  whose time has come is no longer there for \<open>GET\<close> and \<open>EXISTS\<close>.
\<close>

definition redis_get :: "(string \<rightharpoonup> redis_entry) \<Rightarrow> nat \<Rightarrow> string \<Rightarrow> string option" where
  "redis_get r now k =
     (case r k of
        None \<Rightarrow> None
      | Some e \<Rightarrow> if now < entry_expires_at e then Some (entry_value e) else None)"

definition redis_exists :: "(string \<rightharpoonup> redis_entry) \<Rightarrow> nat \<Rightarrow> string \<Rightarrow> nat" where
  "redis_exists r now k = (case redis_get r now k of None \<Rightarrow> 0 | Some v \<Rightarrow> 1)"

definition redis_del :: "(string \<rightharpoonup> redis_entry) \<Rightarrow> string \<Rightarrow> (string \<rightharpoonup> redis_entry)" where
  "redis_del r k = r(k := None)"

definition redis_set_EX ::
  "(string \<rightharpoonup> redis_entry) \<Rightarrow> nat \<Rightarrow> string \<Rightarrow> string \<Rightarrow> nat \<Rightarrow> (string \<rightharpoonup> redis_entry)" where
  "redis_set_EX r now k v seconds =
     r(k \<mapsto> \<lparr>entry_value = v, entry_expires_at = now + seconds\<rparr>)"

text \<open>The time to live, in seconds, that an entry has left at \<open>now\<close>.\<close>

definition redis_ttl :: "(string \<rightharpoonup> redis_entry) \<Rightarrow> nat \<Rightarrow> string \<Rightarrow> nat option" where
  "redis_ttl r now k =
     (case r k of
        None \<Rightarrow> None
      | Some e \<Rightarrow> if now < entry_expires_at e then Some (entry_expires_at e - now) else None)"

text \<open>\<open>await redis.del(key)\<close> and \<open>await redis.set(key, value, "EX", seconds)\<close>: the
  command reaches the cache and changes it.\<close>

definition send_DEL :: "server_state \<Rightarrow> string \<Rightarrow> server_state" where
  "send_DEL s k =
     s\<lparr>redis := redis_del (redis s) k, cache_writes := cache_writes s @ [DEL k]\<rparr>"

definition send_SET_EX :: "server_state \<Rightarrow> nat \<Rightarrow> string \<Rightarrow> string \<Rightarrow> nat \<Rightarrow> server_state" where
  "send_SET_EX s now k v seconds =
     s\<lparr>redis := redis_set_EX (redis s) now k v seconds,
       cache_writes := cache_writes s @ [SET_EX k v seconds]\<rparr>"

subsection \<open>E-mail and tokens\<close>

text \<open>\<open>sendEmail(to, subject, body)\<close>, not awaited: the message joins the e-mails sent.\<close>

definition sendEmail :: "server_state \<Rightarrow> string \<Rightarrow> string \<Rightarrow> string \<Rightarrow> server_state" where
  "sendEmail s to_addr subject body =
     s\<lparr>outbox := outbox s @ [\<lparr>mail_to = to_addr, mail_subject = subject, mail_body = body\<rparr>]\<rparr>"

text \<open>Modelled from the spec: \<open>createAccessToken\<close> of \<open>utils/auth\<close> is not among the sources.
  \<open>issue_access(user)\<close> embeds the subject, the time of issue and the expiry
  \<open>now + ACCESS_TTL\<close>, signed with the access secret.
\<close>

definition createAccessToken :: "config \<Rightarrow> nat \<Rightarrow> User \<Rightarrow> jwt" where
  "createAccessToken cfg now u =
     Signed (ACCESS_TOKEN_SECRET cfg)
       \<lparr>user_id = id_user u, payload_token_version = None\<rparr>
       now (now + ACCESS_TOKEN_EXPIRES_IN cfg)"

text \<open>Modelled from the spec: \<open>createRefreshToken\<close> of \<open>utils/auth\<close> is not among the sources.
  \<open>issue_refresh(user)\<close> embeds the subject, \<open>user.token_version\<close>, the time of issue
  and the expiry \<open>now + REFRESH_TTL\<close>, signed with the refresh secret.
\<close>

definition createRefreshToken :: "config \<Rightarrow> nat \<Rightarrow> User \<Rightarrow> jwt" where
  "createRefreshToken cfg now u =
     Signed (REFRESH_TOKEN_SECRET cfg)
       \<lparr>user_id = id_user u, payload_token_version = Some (token_version u)\<rparr>
       now (now + REFRESH_TOKEN_EXPIRES_IN cfg)"

text \<open>
  \<open>verify(token, secret)\<close> of \<open>jsonwebtoken\<close>: throws when the token is missing, is no
  token, carries another signature, or has reached its expiry; returns the payload
  otherwise.
\<close>

definition verify :: "jwt option \<Rightarrow> string \<Rightarrow> nat \<Rightarrow> string + AuthPayload" where
  "verify token secret now =
     (case token of
        None \<Rightarrow> Inl ''jwt must be provided''
      | Some (Malformed t) \<Rightarrow> Inl ''jwt malformed''
      | Some (Signed k payload iat exp) \<Rightarrow>
          if k \<noteq> secret then Inl ''invalid signature''
          else if exp \<le> now then Inl ''jwt expired''
          else Inr payload)"

text \<open>\<open>res.cookie("qid", token, { httpOnly: true, path: "/refresh_token" })\<close>.\<close>

definition qid_cookie :: "jwt \<Rightarrow> cookie" where
  "qid_cookie t =
     \<lparr>cookie_name = ''qid'', cookie_value = t, httpOnly = True, path = ''/refresh_token''\<rparr>"

section \<open>The resolvers of \<open>resolvers/user.ts\<close>\<close>

text \<open>
  Every resolver takes the configuration, the state and the clock, and returns the
  state it leaves, the cookies it sets on the response (where it is given \<open>res\<close>) and
  its result. The fields of an input object are separate arguments. The code that
  \<open>generateOTP\<close> of \<open>utils/auth\<close> draws at random is the argument \<open>otp\<close>. A resolver
  behind \<open>isAuth\<close> takes \<open>user_payload\<close>, the user that the middleware resolved.
\<close>

definition field_error :: "string \<Rightarrow> string \<Rightarrow> AuthResponse" where
  "field_error f m =
     \<lparr>errors = Some [\<lparr>field = f, message = m\<rparr>], user = None, auth = None\<rparr>"

definition user_error :: "string \<Rightarrow> string \<Rightarrow> UserResponse" where
  "user_error f m = \<lparr>errors = Some [\<lparr>field = f, message = m\<rparr>], user = None\<rparr>"

definition auth_response :: "config \<Rightarrow> nat \<Rightarrow> User \<Rightarrow> AuthResponse" where
  "auth_response cfg now u =
     \<lparr>errors = None, user = Some u,
      auth = Some \<lparr>access_token = createAccessToken cfg now u,
                   expires_in = ACCESS_TOKEN_EXPIRES_IN cfg\<rparr>\<rparr>"

text \<open>The \<open>catch\<close> block of \<open>register\<close>: the response it returns, or \<open>None\<close> where it
  falls through to the check \<open>if (!user)\<close>.\<close>

definition register_catch :: "db_error \<Rightarrow> AuthResponse option" where
  "register_catch err =
     (case err of
        QueryFailedError code detail \<Rightarrow>
          if code = ''23505'' then
            (if includes_str detail ''username''
               then Some (field_error ''username'' ''Username Taken'')
             else if includes_str detail ''email''
               then Some (field_error ''email'' ''Email in Use'')
             else None)
          else None
      | OtherError m \<Rightarrow> None)"

definition register ::
  "config \<Rightarrow> server_state \<Rightarrow> nat \<Rightarrow> string \<Rightarrow> string \<Rightarrow> string \<Rightarrow> string
     \<Rightarrow> server_state \<times> cookie list \<times> AuthResponse" where
  "register cfg s now otp reg_email reg_username reg_password =
     (let hashedPassword = argon2_hash cfg reg_password in
      case User_save cfg (users s) reg_email reg_username hashedPassword of
        Inl err \<Rightarrow>
          (case register_catch err of
             Some response \<Rightarrow> (s, [], response)
           | None \<Rightarrow>
               (s, [], field_error ''username'' ''Server Error: Unable to Create User''))
      | Inr u \<Rightarrow>
          (let s1 = s\<lparr>users := users s @ [u]\<rparr>;
               token = otp;
               s2 = send_SET_EX s1 now
                      (VERIFY_EMAIL_PREFIX cfg @ string_of_number (id_user u))
                      token (1000 * 60 * 60);
               emailBody = ''Your Token is: '' @ token;
               s3 = sendEmail s2 (email u) ''REMASTER - VERIFY EMAIL'' emailBody
           in (s3, [qid_cookie (createRefreshToken cfg now u)], auth_response cfg now u)))"

definition login ::
  "config \<Rightarrow> server_state \<Rightarrow> nat \<Rightarrow> string \<Rightarrow> string
     \<Rightarrow> server_state \<times> cookie list \<times> AuthResponse" where
  "login cfg s now login_email login_password =
     (case findOne_email (users s) login_email of
        None \<Rightarrow> (s, [], field_error ''email'' ''Invalid Email or Password'')
      | Some u \<Rightarrow>
          (let isValid = argon2_verify cfg (password u) login_password in
           if \<not> isValid then (s, [], field_error ''email'' ''Invalid Email or Password'')
           else (s, [qid_cookie (createRefreshToken cfg now u)], auth_response cfg now u)))"

definition changePassword ::
  "config \<Rightarrow> server_state \<Rightarrow> User \<Rightarrow> string \<Rightarrow> string \<Rightarrow> server_state \<times> UserResponse" where
  "changePassword cfg s user_payload oldPassword newPassword =
     (let isValid = argon2_verify cfg (password user_payload) oldPassword in
      if \<not> isValid then (s, user_error ''oldPassword'' ''Incorrect Password'')
      else
        (s\<lparr>users := fst (update_where_id (users s) (id_user user_payload)
                          (\<lambda>u. u\<lparr>password := argon2_hash cfg newPassword\<rparr>))\<rparr>,
         \<lparr>errors = None, user = Some user_payload\<rparr>))"

text \<open>
  In \<open>changeForgotPassword\<close>, \<open>!value\<close> holds of \<open>null\<close> and of the empty string. An
  identifier that \<open>parseInt\<close> reads as \<open>NaN\<close> makes the query fail, and the resolver
  throws before it touches the cache. Where the update matches no row,
  \<open>result.raw[0]\<close> is \<open>undefined\<close> and \<open>createRefreshToken\<close>, reading a field of it,
  throws after the entry has been deleted.
\<close>

definition changeForgotPassword ::
  "config \<Rightarrow> server_state \<Rightarrow> nat \<Rightarrow> string \<Rightarrow> string \<Rightarrow> string
     \<Rightarrow> server_state \<times> cookie list \<times> AuthResponse outcome" where
  "changeForgotPassword cfg s now cfp_email cfp_token cfp_password =
     (let key = FORGOT_PASSWORD_PREFIX cfg @ cfp_email in
      case redis_get (redis s) now key of
        None \<Rightarrow> (s, [], Returned (field_error ''token'' ''Token Expired''))
      | Some v \<Rightarrow>
          if v = [] then (s, [], Returned (field_error ''token'' ''Token Expired''))
          else
            (let userID = at_index (split CHR '':'' v) 0;
                 storedToken = at_index (split CHR '':'' v) 1
             in if Some cfp_token \<noteq> storedToken
                then (s, [], Returned (field_error ''token'' ''Token Invalid''))
                else
                  (case Option.bind userID parseInt of
                     None \<Rightarrow> (s, [], Thrown ''QueryFailedError'')
                   | Some numUserID \<Rightarrow>
                       (let result = update_where_id (users s) numUserID
                                       (\<lambda>u. u\<lparr>password := argon2_hash cfg cfp_password,
                                              token_version := token_version u + 1\<rparr>);
                            s1 = s\<lparr>users := fst result\<rparr>;
                            s2 = send_DEL s1 key
                        in case at_index (snd result) 0 of
                             None \<Rightarrow> (s2, [], Thrown ''TypeError'')
                           | Some u \<Rightarrow>
                               (s2, [qid_cookie (createRefreshToken cfg now u)],
                                Returned (auth_response cfg now u))))))"

definition forgotPassword ::
  "config \<Rightarrow> server_state \<Rightarrow> nat \<Rightarrow> string \<Rightarrow> string \<Rightarrow> server_state \<times> bool" where
  "forgotPassword cfg s now otp fp_email =
     (case findOne_email (users s) fp_email of
        None \<Rightarrow> (s, True)
      | Some u \<Rightarrow>
          (let key = FORGOT_PASSWORD_PREFIX cfg @ email u;
               duplicate = redis_exists (redis s) now key;
               s1 = (if duplicate \<noteq> 0 then send_DEL s key else s);
               token = otp;
               s2 = send_SET_EX s1 now key
                      (string_of_number (id_user u) @ '':'' @ token)
                      (1000 * 60 * 60);
               emailBody = ''Your Token is: '' @ token;
               s3 = sendEmail s2 fp_email ''REMASTER - FORGOT PASSWORD'' emailBody
           in (s3, True)))"

definition verifyEmail ::
  "config \<Rightarrow> server_state \<Rightarrow> nat \<Rightarrow> User \<Rightarrow> string \<Rightarrow> server_state \<times> UserResponse" where
  "verifyEmail cfg s now user_payload token =
     (let key = VERIFY_EMAIL_PREFIX cfg @ string_of_number (id_user user_payload) in
      case redis_get (redis s) now key of
        None \<Rightarrow> (s, user_error ''token'' ''Token Expired'')
      | Some storedToken \<Rightarrow>
          if storedToken = [] then (s, user_error ''token'' ''Token Expired'')
          else if storedToken \<noteq> token then (s, user_error ''token'' ''Token Invalid'')
          else
            (let result = update_where_id (users s) (id_user user_payload)
                            (\<lambda>u. u\<lparr>verified := True\<rparr>);
                 s1 = s\<lparr>users := fst result\<rparr>;
                 s2 = send_DEL s1 key
             in (s2, \<lparr>errors = None, user = at_index (snd result) 0\<rparr>)))"

definition sendVerifyEmail ::
  "config \<Rightarrow> server_state \<Rightarrow> nat \<Rightarrow> string \<Rightarrow> User \<Rightarrow> server_state \<times> bool" where
  "sendVerifyEmail cfg s now otp user_payload =
     (let key = VERIFY_EMAIL_PREFIX cfg @ string_of_number (id_user user_payload);
          duplicate = redis_exists (redis s) now key;
          s1 = (if duplicate \<noteq> 0 then send_DEL s key else s);
          token = otp;
          s2 = send_SET_EX s1 now key token (1000 * 60 * 60);
          emailBody = ''Your Token is: '' @ token;
          s3 = sendEmail s2 (email user_payload) ''REMASTER - VERIFY EMAIL'' emailBody
      in (s3, True))"

text \<open>The two resolvers that no property below is about; they belong to the calls that
  change the table of users.\<close>

text \<open>\<open>User.findOne({ where: { username } })\<close>.\<close>

definition findOne_username :: "User list \<Rightarrow> string \<Rightarrow> User option" where
  "findOne_username us n = List.find (\<lambda>u. username u = n) us"

definition changeUsername ::
  "config \<Rightarrow> server_state \<Rightarrow> User \<Rightarrow> string \<Rightarrow> server_state \<times> UserResponse" where
  "changeUsername cfg s user_payload new_username =
     (case findOne_username (users s) new_username of
        Some duplicateUser \<Rightarrow> (s, user_error ''username'' ''Username Taken'')
      | None \<Rightarrow>
          (let result = update_where_id (users s) (id_user user_payload)
                          (\<lambda>u. u\<lparr>username := new_username\<rparr>)
           in (s\<lparr>users := fst result\<rparr>, \<lparr>errors = None, user = at_index (snd result) 0\<rparr>)))"

definition changeEmail ::
  "config \<Rightarrow> server_state \<Rightarrow> User \<Rightarrow> string \<Rightarrow> server_state \<times> UserResponse" where
  "changeEmail cfg s user_payload new_email =
     (case findOne_email (users s) new_email of
        Some duplicateUser \<Rightarrow> (s, user_error ''email'' ''Email in Use'')
      | None \<Rightarrow>
          (let result = update_where_id (users s) (id_user user_payload)
                          (\<lambda>u. u\<lparr>email := new_email\<rparr>)
           in (s\<lparr>users := fst result\<rparr>, \<lparr>errors = None, user = at_index (snd result) 0\<rparr>)))"

section \<open>The route \<open>POST /refresh_token\<close>\<close>

record request =
  cookies :: "string \<rightharpoonup> jwt"

datatype response_body =
    RefreshTokenResponse bool jwt nat User
  | ErrorResponse string

record response =
  status :: nat
  body :: response_body

text \<open>
  The handler of the route. Everything that throws inside \<open>try\<close> ends in the one
  \<open>catch\<close> block. The handler reads the table of users and writes nothing.
\<close>

definition refresh_failed :: response where
  "refresh_failed = \<lparr>status = 401, body = ErrorResponse ''Failed to Refresh Token''\<rparr>"

definition refreshRoute ::
  "config \<Rightarrow> server_state \<Rightarrow> nat \<Rightarrow> request \<Rightarrow> server_state \<times> cookie list \<times> response" where
  "refreshRoute cfg s now req =
     (let token = cookies req ''qid'' in
      case verify token (REFRESH_TOKEN_SECRET cfg) now of
        Inl err \<Rightarrow> (s, [], refresh_failed)
      | Inr authPayload \<Rightarrow>
          (case findOne_id (users s) (user_id authPayload) of
             None \<Rightarrow> (s, [], refresh_failed)
           | Some u \<Rightarrow>
               if Some (token_version u) \<noteq> payload_token_version authPayload
               then (s, [], refresh_failed)
               else
                 (s, [qid_cookie (createRefreshToken cfg now u)],
                  \<lparr>status = 200,
                   body = RefreshTokenResponse True (createAccessToken cfg now u)
                            (ACCESS_TOKEN_EXPIRES_IN cfg) u\<rparr>)))"

section \<open>The server as a transition system\<close>

text \<open>A call of one of the resolvers or of the route, with the code it draws.\<close>

datatype call =
    Register string string string string
  | Login string string
  | ChangeUsername User string
  | ChangeEmail User string
  | ChangePassword User string string
  | ChangeForgotPassword string string string
  | ForgotPassword string string
  | VerifyEmail User string
  | SendVerifyEmail string User
  | RefreshToken request

text \<open>The state a call leaves.\<close>

fun after :: "config \<Rightarrow> server_state \<Rightarrow> nat \<Rightarrow> call \<Rightarrow> server_state" where
  "after cfg s now (Register otp e n p) = fst (register cfg s now otp e n p)"
| "after cfg s now (Login e p) = fst (login cfg s now e p)"
| "after cfg s now (ChangeUsername up n) = fst (changeUsername cfg s up n)"
| "after cfg s now (ChangeEmail up e) = fst (changeEmail cfg s up e)"
| "after cfg s now (ChangePassword up old new) = fst (changePassword cfg s up old new)"
| "after cfg s now (ChangeForgotPassword e t p) = fst (changeForgotPassword cfg s now e t p)"
| "after cfg s now (ForgotPassword otp e) = fst (forgotPassword cfg s now otp e)"
| "after cfg s now (VerifyEmail up t) = fst (verifyEmail cfg s now up t)"
| "after cfg s now (SendVerifyEmail otp up) = fst (sendVerifyEmail cfg s now otp up)"
| "after cfg s now (RefreshToken req) = fst (refreshRoute cfg s now req)"

fun drawn_code :: "call \<Rightarrow> string option" where
  "drawn_code (Register otp e n p) = Some otp"
| "drawn_code (ForgotPassword otp e) = Some otp"
| "drawn_code (SendVerifyEmail otp up) = Some otp"
| "drawn_code c = None"

text \<open>Modelled from the spec: \<open>generateOTP\<close> of \<open>utils/auth\<close> is not among the sources.
  \<open>generate_code()\<close> produces a code from a fixed-length alphanumeric or numeric space:
  a code is not empty and holds no \<open>:\<close>.\<close>

definition code_ok :: "string \<Rightarrow> bool" where
  "code_ok c = (c \<noteq> [] \<and> CHR '':'' \<notin> set c)"

text \<open>The states the server reaches from a state with an empty cache.\<close>

inductive reachable :: "config \<Rightarrow> server_state \<Rightarrow> bool" for cfg where
  start: "redis s = Map.empty \<Longrightarrow> reachable cfg s"
| call: "reachable cfg s \<Longrightarrow> (case drawn_code c of None \<Rightarrow> True | Some otp \<Rightarrow> code_ok otp) \<Longrightarrow>
         reachable cfg (after cfg s now c)"

text \<open>The two prefixes keep the keys of the two purposes apart.\<close>

definition keys_apart :: "config \<Rightarrow> bool" where
  "keys_apart cfg = (\<forall>x y. FORGOT_PASSWORD_PREFIX cfg @ x \<noteq> VERIFY_EMAIL_PREFIX cfg @ y)"

text \<open>
  Every entry of the cache is one that an issuing resolver wrote: a reset entry is
  \<open>id:code\<close> with the identifier of a stored user and a code without \<open>:\<close>, and the
  code of a verification entry is not empty.
\<close>

definition entries_issued :: "config \<Rightarrow> server_state \<Rightarrow> bool" where
  "entries_issued cfg s =
     ((\<forall>e v x. redis s (FORGOT_PASSWORD_PREFIX cfg @ e) =
                  Some \<lparr>entry_value = v, entry_expires_at = x\<rparr> \<longrightarrow>
          (\<exists>i c. v = string_of_number i @ '':'' @ c \<and> CHR '':'' \<notin> set c
                 \<and> findOne_id (users s) i \<noteq> None))
      \<and> (\<forall>i v x. redis s (VERIFY_EMAIL_PREFIX cfg @ string_of_number i) =
                  Some \<lparr>entry_value = v, entry_expires_at = x\<rparr> \<longrightarrow> v \<noteq> []))"

section \<open>Sequences of refreshes\<close>

text \<open>Any number of calls of the route, one after the other: the state they leave.\<close>

fun refresh_all :: "config \<Rightarrow> server_state \<Rightarrow> (nat \<times> request) list \<Rightarrow> server_state" where
  "refresh_all cfg s [] = s"
| "refresh_all cfg s ((now, req) # rest) = refresh_all cfg (fst (refreshRoute cfg s now req)) rest"

section \<open>A configuration and a state to run the resolvers on\<close>

text \<open>Modelled from the spec: the user store is not among the sources. \<open>create(fields)\<close>
  returns the new user or a unique-constraint error; e-mail and user name are unique,
  \<open>token_version\<close> starts at 0 and \<open>verified\<close> is false until the e-mail is verified.
  The error is the one PostgreSQL reports (code 23505, the violated key in the detail).
\<close>

definition example_save :: "User list \<Rightarrow> string \<Rightarrow> string \<Rightarrow> string \<Rightarrow> db_error + User" where
  "example_save us e n h =
     (if n \<in> set (map username us)
        then Inl (QueryFailedError ''23505'' (''Key (username)=('' @ n @ '') already exists.''))
      else if e \<in> set (map email us)
        then Inl (QueryFailedError ''23505'' (''Key (email)=('' @ e @ '') already exists.''))
      else Inr \<lparr>id_user = int (length us) + 1, email = e, username = n, password = h,
                token_version = 0, verified = False\<rparr>)"

definition example_config :: config where
  "example_config =
     \<lparr>ACCESS_TOKEN_EXPIRES_IN = 900,
      REFRESH_TOKEN_EXPIRES_IN = 604800,
      ACCESS_TOKEN_SECRET = ''access'',
      REFRESH_TOKEN_SECRET = ''refresh'',
      FORGOT_PASSWORD_PREFIX = ''forgot-password:'',
      VERIFY_EMAIL_PREFIX = ''verify-email:'',
      argon2_hash = (\<lambda>p. ''$argon2id$'' @ p),
      argon2_verify = (\<lambda>h p. h = ''$argon2id$'' @ p),
      User_save = example_save\<rparr>"

definition alice :: User where
  "alice = \<lparr>id_user = 1, email = ''a@x.com'', username = ''a'', password = ''$argon2id$pw1'',
            token_version = 0, verified = False\<rparr>"

definition example_state :: server_state where
  "example_state = \<lparr>users = [alice], redis = Map.empty, outbox = [], cache_writes = []\<rparr>"

definition empty_state :: server_state where
  "empty_state = \<lparr>users = [], redis = Map.empty, outbox = [], cache_writes = []\<rparr>"

text \<open>The state after a code has been issued to \<open>alice\<close>, at time 0, by each of the
  two resolvers that reissue codes.\<close>

definition state_after_sendVerifyEmail :: server_state where
  "state_after_sendVerifyEmail =
     fst (sendVerifyEmail example_config example_state 0 ''123456'' alice)"

definition state_after_forgotPassword :: server_state where
  "state_after_forgotPassword =
     fst (forgotPassword example_config example_state 0 ''123456'' ''a@x.com'')"

section \<open>Numbers as strings, strings as numbers\<close>

lemma less_ten_cases:
  "(d::nat) < 10 \<Longrightarrow> d = 0 \<or> d = 1 \<or> d = 2 \<or> d = 3 \<or> d = 4 \<or> d = 5 \<or> d = 6 \<or> d = 7 \<or> d = 8 \<or> d = 9"
  by arith

lemma digit_value_digit_char: "d < 10 \<Longrightarrow> digit_value (digit_char d) = Some d"
  by (drule less_ten_cases) (auto simp: digit_value_def digit_char_def)

lemma digit_char_not_colon: "d < 10 \<Longrightarrow> digit_char d \<noteq> CHR '':''"
  by (drule less_ten_cases) (auto simp: digit_char_def)

lemma digit_char_not_space: "d < 10 \<Longrightarrow> \<not> is_space (digit_char d)"
  by (drule less_ten_cases) (auto simp: digit_char_def is_space_def)

lemma digit_char_not_sign: "d < 10 \<Longrightarrow> digit_char d \<noteq> CHR ''-'' \<and> digit_char d \<noteq> CHR ''+''"
  by (drule less_ten_cases) (auto simp: digit_char_def)

lemma digit_char_not_x: "d < 10 \<Longrightarrow> digit_char d \<noteq> CHR ''x'' \<and> digit_char d \<noteq> CHR ''X''"
  by (drule less_ten_cases) (auto simp: digit_char_def)

lemma string_of_nat_chars: "c \<in> set (string_of_nat n) \<Longrightarrow> \<exists>d<10. c = digit_char d"
proof (induction n rule: string_of_nat.induct)
  case (1 n)
  show ?case
  proof (cases "n < 10")
    case True
    with "1.prems" have "c = digit_char n" by (subst (asm) string_of_nat.simps) simp
    with True show ?thesis by blast
  next
    case False
    with "1.prems" have "c \<in> set (string_of_nat (n div 10)) \<or> c = digit_char (n mod 10)"
      by (subst (asm) string_of_nat.simps) auto
    then show ?thesis
    proof
      assume "c \<in> set (string_of_nat (n div 10))"
      with False "1.IH" show ?thesis by simp
    next
      assume "c = digit_char (n mod 10)"
      moreover have "n mod 10 < 10" by simp
      ultimately show ?thesis by blast
    qed
  qed
qed

lemma string_of_nat_not_Nil: "string_of_nat n \<noteq> []"
  by (subst string_of_nat.simps) simp

lemma digits_value_snoc:
  "digits_value r (ds @ [c]) = digits_value r ds * r + (case digit_value c of None \<Rightarrow> 0 | Some d \<Rightarrow> d)"
  by (simp add: digits_value_def)

lemma digits_value_string_of_nat: "digits_value 10 (string_of_nat n) = n"
proof (induction n rule: string_of_nat.induct)
  case (1 n)
  show ?case
  proof (cases "n < 10")
    case True
    then show ?thesis
      by (subst string_of_nat.simps) (simp add: digits_value_def digit_value_digit_char)
  next
    case False
    with "1" have "digits_value 10 (string_of_nat (n div 10)) = n div 10" by simp
    then show ?thesis using False
      by (subst string_of_nat.simps) (simp add: digits_value_snoc digit_value_digit_char)
  qed
qed

lemma takeWhile_string_of_nat: "takeWhile (is_digit 10) (string_of_nat n) = string_of_nat n"
proof (rule takeWhile_eq_all_conv [THEN iffD2], rule ballI)
  fix c assume "c \<in> set (string_of_nat n)"
  then obtain d where "d < 10" "c = digit_char d" using string_of_nat_chars by blast
  then show "is_digit 10 c" by (simp add: is_digit_def digit_value_digit_char)
qed

lemma string_of_nat_no_hex: "take 2 (string_of_nat n) \<noteq> [CHR ''0'', x]" if "x = CHR ''x'' \<or> x = CHR ''X''"
proof
  assume "take 2 (string_of_nat n) = [CHR ''0'', x]"
  then have "x \<in> set (take 2 (string_of_nat n))" by simp
  then have "x \<in> set (string_of_nat n)" by (rule in_set_takeD)
  then obtain d where "d < 10" "x = digit_char d" using string_of_nat_chars by blast
  then show False using digit_char_not_x [of d] that by auto
qed

lemma parseInt_string_of_nat: "parseInt (string_of_nat n) = Some (int n)"
proof -
  obtain c cs where ds: "string_of_nat n = c # cs"
    using string_of_nat_not_Nil [of n] by (cases "string_of_nat n") auto
  then have "c \<in> set (string_of_nat n)" by simp
  then obtain d where d: "d < 10" "c = digit_char d" using string_of_nat_chars by blast
  have nospace: "\<not> is_space c" using d digit_char_not_space by simp
  have nosign: "c \<noteq> CHR ''-''" "c \<noteq> CHR ''+''" using d digit_char_not_sign by auto
  have nohex: "take 2 (c # cs) \<noteq> ''0x''" "take 2 (c # cs) \<noteq> ''0X''"
    using string_of_nat_no_hex [of _ n] ds by auto
  have all: "takeWhile (is_digit 10) (c # cs) = c # cs"
    using takeWhile_string_of_nat [of n] ds by simp
  have val: "digits_value 10 (c # cs) = n"
    using digits_value_string_of_nat [of n] ds by simp
  have "parseInt (c # cs) = Some (int n)"
    unfolding parseInt_def Let_def using nospace nosign nohex
    by (simp only: dropWhile.simps list.case if_False simp_thms all val) simp
  then show ?thesis by (simp add: ds)
qed

lemma parseInt_minus_string_of_nat:
  "parseInt (CHR ''-'' # string_of_nat n) = Some (- int n)"
proof -
  have nohex: "take 2 (string_of_nat n) \<noteq> ''0x''" "take 2 (string_of_nat n) \<noteq> ''0X''"
    using string_of_nat_no_hex [of _ n] by auto
  have minus: "\<not> is_space CHR ''-''" by (simp add: is_space_def)
  show ?thesis
    unfolding parseInt_def Let_def using minus nohex string_of_nat_not_Nil [of n]
    by (simp add: takeWhile_string_of_nat digits_value_string_of_nat)
qed

lemma parseInt_string_of_number: "parseInt (string_of_number i) = Some i"
  by (simp add: string_of_number_def parseInt_string_of_nat parseInt_minus_string_of_nat)

lemma string_of_number_no_colon: "CHR '':'' \<notin> set (string_of_number i)"
proof -
  have "CHR '':'' \<notin> set (string_of_nat n)" for n
  proof
    assume "CHR '':'' \<in> set (string_of_nat n)"
    then obtain d where "d < 10" "CHR '':'' = digit_char d" using string_of_nat_chars by blast
    then show False using digit_char_not_colon [of d] by simp
  qed
  then show ?thesis by (simp add: string_of_number_def)
qed

lemma split_no_separator: "sep \<notin> set xs \<Longrightarrow> split sep xs = [xs]"
  by (induction xs) auto

lemma split_at_separator:
  "sep \<notin> set xs \<Longrightarrow> split sep (xs @ sep # ys) = xs # split sep ys"
  by (induction xs) auto

lemma split_id_code:
  "CHR '':'' \<notin> set c \<Longrightarrow>
   split CHR '':'' (string_of_number i @ '':'' @ c) = [string_of_number i, c]"
  using split_at_separator [OF string_of_number_no_colon, of i c]
  by (simp add: split_no_separator)

lemma at_index_update_where_id:
  "at_index (snd (update_where_id us i f)) 0 = map_option f (findOne_id us i)"
  by (induction us) (auto simp: update_where_id_def at_index_def findOne_id_def)

lemma findOne_id_map:
  "(\<And>u. id_user (g u) = id_user u) \<Longrightarrow>
   findOne_id (map g us) i = map_option g (findOne_id us i)"
  by (induction us) (auto simp: findOne_id_def)

lemma findOne_id_update_where_id:
  assumes "\<And>u. id_user (f u) = id_user u"
  shows "findOne_id (fst (update_where_id us j f)) i =
           map_option (\<lambda>u. if id_user u = j then f u else u) (findOne_id us i)"
  unfolding update_where_id_def fst_conv
  by (rule findOne_id_map) (simp add: assms)

lemma findOne_id_Some: "findOne_id us i = Some u \<Longrightarrow> id_user u = i"
  by (induction us) (auto simp: findOne_id_def split: if_splits)

lemma refreshRoute_state: "fst (refreshRoute cfg s now req) = s"
  by (simp add: refreshRoute_def split: sum.splits option.splits)

lemma refresh_all_state: "refresh_all cfg s reqs = s"
  by (induction reqs arbitrary: s) (auto simp: refreshRoute_state)

section \<open>The refresh route\<close>

text \<open>
  C1. A request to the route is rejected when the cookie \<open>qid\<close> is absent, when its
  verification fails, when no user has the identifier the token names, or when the
  version in the token is not the user's current \<open>token_version\<close>; every rejection is
  the same response, status 401 with the one error body, and sets no cookie. Every other
  request is answered with status 200 and \<open>{ok: true, access_token, expires_in, user}\<close>,
  and sets a new cookie \<open>qid\<close>, \<open>HttpOnly\<close>, with the path \<open>/refresh_token\<close>.
\<close>

theorem refreshRoute_responses:
  "((cookies req ''qid'' = None
      \<or> (\<exists>e. verify (cookies req ''qid'') (REFRESH_TOKEN_SECRET cfg) now = Inl e)
      \<or> (\<exists>p. verify (cookies req ''qid'') (REFRESH_TOKEN_SECRET cfg) now = Inr p
              \<and> findOne_id (users s) (user_id p) = None)
      \<or> (\<exists>p u. verify (cookies req ''qid'') (REFRESH_TOKEN_SECRET cfg) now = Inr p
              \<and> findOne_id (users s) (user_id p) = Some u
              \<and> payload_token_version p \<noteq> Some (token_version u)))
     \<longrightarrow> refreshRoute cfg s now req =
           (s, [], \<lparr>status = 401, body = ErrorResponse ''Failed to Refresh Token''\<rparr>))
   \<and> (\<not> (cookies req ''qid'' = None
      \<or> (\<exists>e. verify (cookies req ''qid'') (REFRESH_TOKEN_SECRET cfg) now = Inl e)
      \<or> (\<exists>p. verify (cookies req ''qid'') (REFRESH_TOKEN_SECRET cfg) now = Inr p
              \<and> findOne_id (users s) (user_id p) = None)
      \<or> (\<exists>p u. verify (cookies req ''qid'') (REFRESH_TOKEN_SECRET cfg) now = Inr p
              \<and> findOne_id (users s) (user_id p) = Some u
              \<and> payload_token_version p \<noteq> Some (token_version u)))
     \<longrightarrow> (\<exists>p u. verify (cookies req ''qid'') (REFRESH_TOKEN_SECRET cfg) now = Inr p
              \<and> findOne_id (users s) (user_id p) = Some u
              \<and> refreshRoute cfg s now req =
                  (s,
                   [\<lparr>cookie_name = ''qid'', cookie_value = createRefreshToken cfg now u,
                     httpOnly = True, path = ''/refresh_token''\<rparr>],
                   \<lparr>status = 200,
                    body = RefreshTokenResponse True (createAccessToken cfg now u)
                             (ACCESS_TOKEN_EXPIRES_IN cfg) u\<rparr>)))"
proof (intro conjI impI)
  assume "cookies req ''qid'' = None
      \<or> (\<exists>e. verify (cookies req ''qid'') (REFRESH_TOKEN_SECRET cfg) now = Inl e)
      \<or> (\<exists>p. verify (cookies req ''qid'') (REFRESH_TOKEN_SECRET cfg) now = Inr p
              \<and> findOne_id (users s) (user_id p) = None)
      \<or> (\<exists>p u. verify (cookies req ''qid'') (REFRESH_TOKEN_SECRET cfg) now = Inr p
              \<and> findOne_id (users s) (user_id p) = Some u
              \<and> payload_token_version p \<noteq> Some (token_version u))"
  then consider
      (absent) "cookies req ''qid'' = None"
    | (invalid) e where "verify (cookies req ''qid'') (REFRESH_TOKEN_SECRET cfg) now = Inl e"
    | (unknown) p where "verify (cookies req ''qid'') (REFRESH_TOKEN_SECRET cfg) now = Inr p"
        "findOne_id (users s) (user_id p) = None"
    | (revoked) p u where "verify (cookies req ''qid'') (REFRESH_TOKEN_SECRET cfg) now = Inr p"
        "findOne_id (users s) (user_id p) = Some u"
        "payload_token_version p \<noteq> Some (token_version u)"
    by (elim disjE exE conjE)
  then show "refreshRoute cfg s now req =
           (s, [], \<lparr>status = 401, body = ErrorResponse ''Failed to Refresh Token''\<rparr>)"
  proof cases
    case absent
    then show ?thesis by (simp add: refreshRoute_def verify_def refresh_failed_def)
  next
    case invalid
    then show ?thesis by (simp add: refreshRoute_def refresh_failed_def)
  next
    case unknown
    then show ?thesis by (simp add: refreshRoute_def refresh_failed_def)
  next
    case revoked
    then show ?thesis by (auto simp: refreshRoute_def refresh_failed_def)
  qed
next
  assume accepted: "\<not> (cookies req ''qid'' = None
      \<or> (\<exists>e. verify (cookies req ''qid'') (REFRESH_TOKEN_SECRET cfg) now = Inl e)
      \<or> (\<exists>p. verify (cookies req ''qid'') (REFRESH_TOKEN_SECRET cfg) now = Inr p
              \<and> findOne_id (users s) (user_id p) = None)
      \<or> (\<exists>p u. verify (cookies req ''qid'') (REFRESH_TOKEN_SECRET cfg) now = Inr p
              \<and> findOne_id (users s) (user_id p) = Some u
              \<and> payload_token_version p \<noteq> Some (token_version u)))"
  then obtain p where p: "verify (cookies req ''qid'') (REFRESH_TOKEN_SECRET cfg) now = Inr p"
    by (cases "verify (cookies req ''qid'') (REFRESH_TOKEN_SECRET cfg) now") auto
  with accepted obtain u where u: "findOne_id (users s) (user_id p) = Some u"
    by (cases "findOne_id (users s) (user_id p)") auto
  from accepted p u have v: "payload_token_version p = Some (token_version u)"
    by auto
  from p u v have "refreshRoute cfg s now req =
      (s,
       [\<lparr>cookie_name = ''qid'', cookie_value = createRefreshToken cfg now u,
         httpOnly = True, path = ''/refresh_token''\<rparr>],
       \<lparr>status = 200,
        body = RefreshTokenResponse True (createAccessToken cfg now u)
                 (ACCESS_TOKEN_EXPIRES_IN cfg) u\<rparr>)"
    by (simp add: refreshRoute_def qid_cookie_def)
  with p u show "\<exists>p u. verify (cookies req ''qid'') (REFRESH_TOKEN_SECRET cfg) now = Inr p
              \<and> findOne_id (users s) (user_id p) = Some u
              \<and> refreshRoute cfg s now req =
                  (s,
                   [\<lparr>cookie_name = ''qid'', cookie_value = createRefreshToken cfg now u,
                     httpOnly = True, path = ''/refresh_token''\<rparr>],
                   \<lparr>status = 200,
                    body = RefreshTokenResponse True (createAccessToken cfg now u)
                             (ACCESS_TOKEN_EXPIRES_IN cfg) u\<rparr>)"
    by (intro exI [of _ p] exI [of _ u] conjI)
qed

theorem refreshRoute_responses_witness:
  "refreshRoute example_config example_state 100 \<lparr>cookies = Map.empty\<rparr> =
     (example_state, [], \<lparr>status = 401, body = ErrorResponse ''Failed to Refresh Token''\<rparr>)
   \<and> refreshRoute example_config example_state 100
       \<lparr>cookies = [''qid'' \<mapsto> createRefreshToken example_config 0 (alice\<lparr>token_version := 7\<rparr>)]\<rparr> =
     (example_state, [], \<lparr>status = 401, body = ErrorResponse ''Failed to Refresh Token''\<rparr>)
   \<and> refreshRoute example_config example_state 100
       \<lparr>cookies = [''qid'' \<mapsto> createRefreshToken example_config 0 alice]\<rparr> =
     (example_state,
      [\<lparr>cookie_name = ''qid'', cookie_value = createRefreshToken example_config 100 alice,
        httpOnly = True, path = ''/refresh_token''\<rparr>],
      \<lparr>status = 200,
       body = RefreshTokenResponse True (createAccessToken example_config 100 alice) 900 alice\<rparr>)"
proof -
  have v0: "verify None (REFRESH_TOKEN_SECRET example_config) 100 = Inl ''jwt must be provided''"
    by (simp add: verify_def)
  have v1: "verify (Some (createRefreshToken example_config 0 (alice\<lparr>token_version := 7\<rparr>)))
              (REFRESH_TOKEN_SECRET example_config) 100 =
            Inr \<lparr>user_id = 1, payload_token_version = Some 7\<rparr>"
    by (simp add: verify_def createRefreshToken_def example_config_def alice_def)
  have v2: "verify (Some (createRefreshToken example_config 0 alice))
              (REFRESH_TOKEN_SECRET example_config) 100 =
            Inr \<lparr>user_id = 1, payload_token_version = Some 0\<rparr>"
    by (simp add: verify_def createRefreshToken_def example_config_def alice_def)
  have f: "findOne_id (users example_state) 1 = Some alice"
    by (simp add: findOne_id_def example_state_def alice_def)
  have tv: "token_version alice = 0" by (simp add: alice_def)
  have ttl: "ACCESS_TOKEN_EXPIRES_IN example_config = 900" by (simp add: example_config_def)
  from refreshRoute_responses [of "\<lparr>cookies = Map.empty\<rparr>" example_config 100 example_state]
  have a: "refreshRoute example_config example_state 100 \<lparr>cookies = Map.empty\<rparr> =
     (example_state, [], \<lparr>status = 401, body = ErrorResponse ''Failed to Refresh Token''\<rparr>)"
    by simp
  from refreshRoute_responses
         [of "\<lparr>cookies = [''qid'' \<mapsto> createRefreshToken example_config 0 (alice\<lparr>token_version := 7\<rparr>)]\<rparr>"
             example_config 100 example_state] v1 f tv
  have b: "refreshRoute example_config example_state 100
       \<lparr>cookies = [''qid'' \<mapsto> createRefreshToken example_config 0 (alice\<lparr>token_version := 7\<rparr>)]\<rparr> =
     (example_state, [], \<lparr>status = 401, body = ErrorResponse ''Failed to Refresh Token''\<rparr>)"
    by simp
  from refreshRoute_responses
         [of "\<lparr>cookies = [''qid'' \<mapsto> createRefreshToken example_config 0 alice]\<rparr>"
             example_config 100 example_state] v2 f tv ttl
  have c: "refreshRoute example_config example_state 100
       \<lparr>cookies = [''qid'' \<mapsto> createRefreshToken example_config 0 alice]\<rparr> =
     (example_state,
      [\<lparr>cookie_name = ''qid'', cookie_value = createRefreshToken example_config 100 alice,
        httpOnly = True, path = ''/refresh_token''\<rparr>],
      \<lparr>status = 200,
       body = RefreshTokenResponse True (createAccessToken example_config 100 alice) 900 alice\<rparr>)"
    by simp
  from a b c show ?thesis by simp
qed

text \<open>
  C2. A refresh leaves the state of the server as it was, and the refresh token it
  issues embeds the \<open>token_version\<close> the user has. So a refresh token that verifies
  and whose version is the one stored for its user is accepted after any number of
  refreshes in between: rotation revokes nothing.
\<close>

theorem rotation_never_revokes:
  "fst (refreshRoute cfg s now req) = s
   \<and> (status (snd (snd (refreshRoute cfg s now req))) = 200 \<longrightarrow>
        (\<exists>p u. verify (cookies req ''qid'') (REFRESH_TOKEN_SECRET cfg) now = Inr p
            \<and> findOne_id (users s) (user_id p) = Some u
            \<and> map cookie_value (fst (snd (refreshRoute cfg s now req))) =
                [Signed (REFRESH_TOKEN_SECRET cfg)
                   \<lparr>user_id = id_user u, payload_token_version = Some (token_version u)\<rparr>
                   now (now + REFRESH_TOKEN_EXPIRES_IN cfg)]))
   \<and> (\<forall>p u. verify (cookies req' ''qid'') (REFRESH_TOKEN_SECRET cfg) later = Inr p
            \<and> findOne_id (users s) (user_id p) = Some u
            \<and> payload_token_version p = Some (token_version u)
        \<longrightarrow> refresh_all cfg s reqs = s
            \<and> status (snd (snd (refreshRoute cfg (refresh_all cfg s reqs) later req'))) = 200)"
proof (intro conjI impI allI)
  show "fst (refreshRoute cfg s now req) = s" by (rule refreshRoute_state)
next
  assume ok: "status (snd (snd (refreshRoute cfg s now req))) = 200"
  then obtain p where p: "verify (cookies req ''qid'') (REFRESH_TOKEN_SECRET cfg) now = Inr p"
    by (cases "verify (cookies req ''qid'') (REFRESH_TOKEN_SECRET cfg) now")
       (auto simp: refreshRoute_def refresh_failed_def)
  with ok obtain u where u: "findOne_id (users s) (user_id p) = Some u"
    by (cases "findOne_id (users s) (user_id p)")
       (auto simp: refreshRoute_def refresh_failed_def)
  from ok p u have "payload_token_version p = Some (token_version u)"
    by (auto simp: refreshRoute_def refresh_failed_def split: if_splits)
  with p u have "map cookie_value (fst (snd (refreshRoute cfg s now req))) =
                [Signed (REFRESH_TOKEN_SECRET cfg)
                   \<lparr>user_id = id_user u, payload_token_version = Some (token_version u)\<rparr>
                   now (now + REFRESH_TOKEN_EXPIRES_IN cfg)]"
    by (simp add: refreshRoute_def qid_cookie_def createRefreshToken_def)
  with p u show "\<exists>p u. verify (cookies req ''qid'') (REFRESH_TOKEN_SECRET cfg) now = Inr p
            \<and> findOne_id (users s) (user_id p) = Some u
            \<and> map cookie_value (fst (snd (refreshRoute cfg s now req))) =
                [Signed (REFRESH_TOKEN_SECRET cfg)
                   \<lparr>user_id = id_user u, payload_token_version = Some (token_version u)\<rparr>
                   now (now + REFRESH_TOKEN_EXPIRES_IN cfg)]"
    by (intro exI [of _ p] exI [of _ u] conjI)
next
  fix p u
  assume "verify (cookies req' ''qid'') (REFRESH_TOKEN_SECRET cfg) later = Inr p
            \<and> findOne_id (users s) (user_id p) = Some u
            \<and> payload_token_version p = Some (token_version u)"
  then show "status (snd (snd (refreshRoute cfg (refresh_all cfg s reqs) later req'))) = 200"
    by (simp add: refresh_all_state refreshRoute_def)
next
  show "refresh_all cfg s reqs = s" by (rule refresh_all_state)
qed

theorem rotation_never_revokes_witness:
  "status (snd (snd (refreshRoute example_config example_state 10
       \<lparr>cookies = [''qid'' \<mapsto> createRefreshToken example_config 0 alice]\<rparr>))) = 200
   \<and> map cookie_value (fst (snd (refreshRoute example_config example_state 10
       \<lparr>cookies = [''qid'' \<mapsto> createRefreshToken example_config 0 alice]\<rparr>))) =
       [createRefreshToken example_config 10 alice]
   \<and> status (snd (snd (refreshRoute example_config
        (refresh_all example_config example_state
           [(10, \<lparr>cookies = [''qid'' \<mapsto> createRefreshToken example_config 0 alice]\<rparr>),
            (20, \<lparr>cookies = [''qid'' \<mapsto> createRefreshToken example_config 10 alice]\<rparr>)])
        30 \<lparr>cookies = [''qid'' \<mapsto> createRefreshToken example_config 0 alice]\<rparr>))) = 200"
proof -
  let ?req = "\<lparr>cookies = [''qid'' \<mapsto> createRefreshToken example_config 0 alice]\<rparr>"
  let ?reqs = "[(10, ?req),
                (20, \<lparr>cookies = [''qid'' \<mapsto> createRefreshToken example_config 10 alice]\<rparr>)]"
  have v: "verify (cookies ?req ''qid'') (REFRESH_TOKEN_SECRET example_config) later =
            Inr \<lparr>user_id = 1, payload_token_version = Some 0\<rparr>" if "later < 604800" for later
    using that by (simp add: verify_def createRefreshToken_def example_config_def alice_def)
  have f: "findOne_id (users example_state) (user_id \<lparr>user_id = 1, payload_token_version = Some 0\<rparr>) = Some alice"
    by (simp add: findOne_id_def example_state_def alice_def)
  have tv: "payload_token_version \<lparr>user_id = 1, payload_token_version = Some 0\<rparr> = Some (token_version alice)"
    by (simp add: alice_def)
  note accepted = rotation_never_revokes [THEN conjunct2, THEN conjunct2, rule_format]
  note issued = rotation_never_revokes [THEN conjunct2, THEN conjunct1, rule_format]
  have first: "status (snd (snd (refreshRoute example_config example_state 10 ?req))) = 200"
    using accepted [where reqs = "[]" and s = example_state and cfg = example_config
                      and later = 10 and req' = ?req, OF conjI [OF v conjI [OF f tv]]]
    by simp
  from issued [OF first] obtain p u where
      p: "verify (cookies ?req ''qid'') (REFRESH_TOKEN_SECRET example_config) 10 = Inr p"
    and u: "findOne_id (users example_state) (user_id p) = Some u"
    and c: "map cookie_value (fst (snd (refreshRoute example_config example_state 10 ?req))) =
              [Signed (REFRESH_TOKEN_SECRET example_config)
                 \<lparr>user_id = id_user u, payload_token_version = Some (token_version u)\<rparr>
                 10 (10 + REFRESH_TOKEN_EXPIRES_IN example_config)]"
    by (elim exE conjE)
  from p v [of 10] have "p = \<lparr>user_id = 1, payload_token_version = Some 0\<rparr>" by simp
  with u f have "u = alice" by simp
  with c have second: "map cookie_value (fst (snd (refreshRoute example_config example_state 10 ?req))) =
       [createRefreshToken example_config 10 alice]"
    by (simp add: createRefreshToken_def)
  have third: "status (snd (snd (refreshRoute example_config
        (refresh_all example_config example_state ?reqs) 30 ?req))) = 200"
    by (rule accepted [where reqs = ?reqs and s = example_state and cfg = example_config
                         and later = 30 and req' = ?req, OF conjI [OF v conjI [OF f tv]],
                       THEN conjunct2]) simp
  from first second third show ?thesis by simp
qed

section \<open>What the resolvers compute\<close>

subsection \<open>The table and the cache\<close>

lemma update_where_id_fst:
  "fst (update_where_id us i f) = map (\<lambda>u. if id_user u = i then f u else u) us"
  by (simp add: update_where_id_def)

lemma findOne_email_Some: "findOne_email us e = Some u \<Longrightarrow> email u = e"
  by (induction us) (auto simp: findOne_email_def split: if_splits)

lemma redis_get_del: "redis_get (redis_del r k) now k = None"
  by (simp add: redis_get_def redis_del_def)

lemma redis_set_after_del:
  "redis_set_EX (redis_del r k) now k v n = redis_set_EX r now k v n"
  by (simp add: redis_set_EX_def redis_del_def)

lemma redis_get_set: "redis_get (redis_set_EX r now k v n) later k = (if later < now + n then Some v else None)"
  by (simp add: redis_get_def redis_set_EX_def)

lemma redis_exists_iff:
  "(redis_exists r now k \<noteq> 0) = (redis_get r now k \<noteq> None)"
  "(0 < redis_exists r now k) = (redis_get r now k \<noteq> None)"
  by (simp_all add: redis_exists_def split: option.splits)

lemma send_DEL_fields [simp]:
  "users (send_DEL s k) = users s"
  "redis (send_DEL s k) = redis_del (redis s) k"
  "outbox (send_DEL s k) = outbox s"
  "cache_writes (send_DEL s k) = cache_writes s @ [DEL k]"
  by (simp_all add: send_DEL_def)

lemma send_SET_EX_fields [simp]:
  "users (send_SET_EX s now k v n) = users s"
  "redis (send_SET_EX s now k v n) = redis_set_EX (redis s) now k v n"
  "outbox (send_SET_EX s now k v n) = outbox s"
  "cache_writes (send_SET_EX s now k v n) = cache_writes s @ [SET_EX k v n]"
  by (simp_all add: send_SET_EX_def)

lemma reset_entry_pieces:
  assumes "CHR '':'' \<notin> set c"
  shows "at_index (split CHR '':'' (string_of_number i @ '':'' @ c)) 0 = Some (string_of_number i)"
    and "at_index (split CHR '':'' (string_of_number i @ '':'' @ c)) (Suc 0) = Some c"
    and "string_of_number i @ '':'' @ c \<noteq> []"
  using split_id_code [OF assms, of i] by (simp_all add: at_index_def)

lemma string_of_number_1: "string_of_number 1 = ''1''"
  by (simp add: string_of_number_def string_of_nat.simps digit_char_def)

subsection \<open>A refresh depends on identifiers and versions only\<close>

lemma refreshRoute_same_versions:
  assumes "\<And>i. map_option (\<lambda>u. (id_user u, token_version u)) (findOne_id (users s') i) =
                map_option (\<lambda>u. (id_user u, token_version u)) (findOne_id (users s) i)"
  shows "status (snd (snd (refreshRoute cfg s' now req))) =
           status (snd (snd (refreshRoute cfg s now req)))"
proof (cases "verify (cookies req ''qid'') (REFRESH_TOKEN_SECRET cfg) now")
  case (Inl e)
  then show ?thesis by (simp add: refreshRoute_def)
next
  case (Inr p)
  show ?thesis
  proof (cases "findOne_id (users s) (user_id p)")
    case None
    with assms [of "user_id p"] have "findOne_id (users s') (user_id p) = None" by simp
    with None Inr show ?thesis by (simp add: refreshRoute_def)
  next
    case (Some u)
    with assms [of "user_id p"] obtain u' where
      u': "findOne_id (users s') (user_id p) = Some u'"
        "id_user u' = id_user u" "token_version u' = token_version u"
      by (cases "findOne_id (users s') (user_id p)") auto
    with Some Inr show ?thesis
      by (simp add: refreshRoute_def refresh_failed_def)
  qed
qed

subsection \<open>The branches of the resolvers\<close>

lemma verifyEmail_absent:
  "redis_get (redis s) now (VERIFY_EMAIL_PREFIX cfg @ string_of_number (id_user up)) = None \<Longrightarrow>
   verifyEmail cfg s now up t =
     (s, \<lparr>errors = Some [\<lparr>field = ''token'', message = ''Token Expired''\<rparr>], user = None\<rparr>)"
  by (simp add: verifyEmail_def user_error_def)

lemma verifyEmail_mismatch:
  "redis_get (redis s) now (VERIFY_EMAIL_PREFIX cfg @ string_of_number (id_user up)) = Some c \<Longrightarrow>
   c \<noteq> [] \<Longrightarrow> c \<noteq> t \<Longrightarrow>
   verifyEmail cfg s now up t =
     (s, \<lparr>errors = Some [\<lparr>field = ''token'', message = ''Token Invalid''\<rparr>], user = None\<rparr>)"
  by (simp add: verifyEmail_def user_error_def)

lemma verifyEmail_match:
  "redis_get (redis s) now (VERIFY_EMAIL_PREFIX cfg @ string_of_number (id_user up)) = Some t \<Longrightarrow>
   t \<noteq> [] \<Longrightarrow>
   verifyEmail cfg s now up t =
     (send_DEL
        (s\<lparr>users := map (\<lambda>u. if id_user u = id_user up then u\<lparr>verified := True\<rparr> else u) (users s)\<rparr>)
        (VERIFY_EMAIL_PREFIX cfg @ string_of_number (id_user up)),
      \<lparr>errors = None,
       user = map_option (\<lambda>u. u\<lparr>verified := True\<rparr>) (findOne_id (users s) (id_user up))\<rparr>)"
  by (simp add: verifyEmail_def Let_def update_where_id_fst at_index_update_where_id)

lemma changeForgotPassword_absent:
  "redis_get (redis s) now (FORGOT_PASSWORD_PREFIX cfg @ e) = None \<Longrightarrow>
   changeForgotPassword cfg s now e t pw =
     (s, [], Returned \<lparr>errors = Some [\<lparr>field = ''token'', message = ''Token Expired''\<rparr>],
                       user = None, auth = None\<rparr>)"
  by (simp add: changeForgotPassword_def field_error_def)

lemma changeForgotPassword_mismatch:
  "redis_get (redis s) now (FORGOT_PASSWORD_PREFIX cfg @ e) = Some (string_of_number i @ '':'' @ c) \<Longrightarrow>
   CHR '':'' \<notin> set c \<Longrightarrow> c \<noteq> t \<Longrightarrow>
   changeForgotPassword cfg s now e t pw =
     (s, [], Returned \<lparr>errors = Some [\<lparr>field = ''token'', message = ''Token Invalid''\<rparr>],
                       user = None, auth = None\<rparr>)"
  using reset_entry_pieces [of c i]
  by (auto simp: changeForgotPassword_def field_error_def Let_def)

lemma changeForgotPassword_match:
  assumes "redis_get (redis s) now (FORGOT_PASSWORD_PREFIX cfg @ e) =
             Some (string_of_number i @ '':'' @ t)"
    and "CHR '':'' \<notin> set t"
    and "findOne_id (users s) i = Some u"
  shows "changeForgotPassword cfg s now e t pw =
     (send_DEL
        (s\<lparr>users := map (\<lambda>x. if id_user x = i
                              then x\<lparr>password := argon2_hash cfg pw,
                                     token_version := token_version x + 1\<rparr>
                              else x) (users s)\<rparr>)
        (FORGOT_PASSWORD_PREFIX cfg @ e),
      [qid_cookie (createRefreshToken cfg now
         (u\<lparr>password := argon2_hash cfg pw, token_version := token_version u + 1\<rparr>))],
      Returned (auth_response cfg now
         (u\<lparr>password := argon2_hash cfg pw, token_version := token_version u + 1\<rparr>)))"
  using assms reset_entry_pieces [OF assms(2), of i]
  by (simp add: changeForgotPassword_def Let_def parseInt_string_of_number
        update_where_id_fst at_index_update_where_id)

lemma forgotPassword_known:
  assumes "findOne_email (users s) e = Some u"
  shows "forgotPassword cfg s now otp e =
     (s\<lparr>redis := redis_set_EX (redis_del (redis s) (FORGOT_PASSWORD_PREFIX cfg @ e)) now
                   (FORGOT_PASSWORD_PREFIX cfg @ e)
                   (string_of_number (id_user u) @ '':'' @ otp) (1000 * 60 * 60),
        outbox := outbox s @ [\<lparr>mail_to = e, mail_subject = ''REMASTER - FORGOT PASSWORD'',
                                mail_body = ''Your Token is: '' @ otp\<rparr>],
        cache_writes := cache_writes s
          @ (if redis_get (redis s) now (FORGOT_PASSWORD_PREFIX cfg @ e) = None then []
             else [DEL (FORGOT_PASSWORD_PREFIX cfg @ e)])
          @ [SET_EX (FORGOT_PASSWORD_PREFIX cfg @ e)
               (string_of_number (id_user u) @ '':'' @ otp) (1000 * 60 * 60)]\<rparr>,
      True)"
  using assms findOne_email_Some [OF assms]
  by (simp add: forgotPassword_def Let_def sendEmail_def redis_set_after_del redis_exists_iff
        send_DEL_def send_SET_EX_def)

lemma sendVerifyEmail_result:
  "sendVerifyEmail cfg s now otp up =
     (s\<lparr>redis := redis_set_EX (redis_del (redis s)
                     (VERIFY_EMAIL_PREFIX cfg @ string_of_number (id_user up))) now
                   (VERIFY_EMAIL_PREFIX cfg @ string_of_number (id_user up))
                   otp (1000 * 60 * 60),
        outbox := outbox s @ [\<lparr>mail_to = email up, mail_subject = ''REMASTER - VERIFY EMAIL'',
                                mail_body = ''Your Token is: '' @ otp\<rparr>],
        cache_writes := cache_writes s
          @ (if redis_get (redis s) now
                  (VERIFY_EMAIL_PREFIX cfg @ string_of_number (id_user up)) = None then []
             else [DEL (VERIFY_EMAIL_PREFIX cfg @ string_of_number (id_user up))])
          @ [SET_EX (VERIFY_EMAIL_PREFIX cfg @ string_of_number (id_user up))
               otp (1000 * 60 * 60)]\<rparr>,
      True)"
  by (simp add: sendVerifyEmail_def Let_def sendEmail_def redis_set_after_del redis_exists_iff
        send_DEL_def send_SET_EX_def)

lemma forgotPassword_users: "users (fst (forgotPassword cfg s now otp e)) = users s"
  by (simp add: forgotPassword_def Let_def sendEmail_def split: option.splits)

lemma sendVerifyEmail_users: "users (fst (sendVerifyEmail cfg s now otp up)) = users s"
  by (simp add: sendVerifyEmail_result)

lemma forgotPassword_again:
  assumes "findOne_email (users s) e = Some u"
  shows "findOne_email (users (fst (forgotPassword cfg s now otp e))) e = Some u"
    and "redis_get (redis (fst (forgotPassword cfg s now otp e))) later
           (FORGOT_PASSWORD_PREFIX cfg @ e) =
         (if later < now + 1000 * 60 * 60
          then Some (string_of_number (id_user u) @ '':'' @ otp) else None)"
  using assms by (simp_all add: forgotPassword_known redis_get_set)

lemma sendVerifyEmail_again:
  "redis_get (redis (fst (sendVerifyEmail cfg s now otp up))) later
     (VERIFY_EMAIL_PREFIX cfg @ string_of_number (id_user up)) =
   (if later < now + 1000 * 60 * 60 then Some otp else None)"
  by (simp add: sendVerifyEmail_result redis_get_set)

lemma verifyEmail_other_code:
  assumes "redis (s::server_state) (VERIFY_EMAIL_PREFIX cfg @ string_of_number (id_user up)) =
             Some \<lparr>entry_value = c, entry_expires_at = x\<rparr>"
    and "c \<noteq> t"
  shows "\<exists>m. verifyEmail cfg s later up t =
               (s, \<lparr>errors = Some [\<lparr>field = ''token'', message = m\<rparr>], user = None\<rparr>)
             \<and> (m = ''Token Invalid'' \<or> m = ''Token Expired'')"
  using assms by (simp add: verifyEmail_def redis_get_def user_error_def)

lemma changeForgotPassword_other_code:
  assumes "redis (s::server_state) (FORGOT_PASSWORD_PREFIX cfg @ e) =
             Some \<lparr>entry_value = string_of_number i @ '':'' @ c, entry_expires_at = x\<rparr>"
    and "CHR '':'' \<notin> set c" and "c \<noteq> t"
  shows "\<exists>m. changeForgotPassword cfg s later e t pw =
               (s, [], Returned \<lparr>errors = Some [\<lparr>field = ''token'', message = m\<rparr>],
                                 user = None, auth = None\<rparr>)
             \<and> (m = ''Token Invalid'' \<or> m = ''Token Expired'')"
proof (cases "later < x")
  case True
  with assms(1) have "redis_get (redis s) later (FORGOT_PASSWORD_PREFIX cfg @ e) =
      Some (string_of_number i @ '':'' @ c)"
    by (simp add: redis_get_def)
  from changeForgotPassword_mismatch [OF this assms(2,3)] show ?thesis by simp
next
  case False
  with assms(1) have "redis_get (redis s) later (FORGOT_PASSWORD_PREFIX cfg @ e) = None"
    by (simp add: redis_get_def)
  from changeForgotPassword_absent [OF this] show ?thesis by simp
qed

subsection \<open>The entries of the cache in every reachable state\<close>

lemma entries_issued_users:
  assumes "entries_issued cfg s" and "redis s' = redis s"
    and "\<And>i. findOne_id (users s) i \<noteq> None \<Longrightarrow> findOne_id (users s') i \<noteq> None"
  shows "entries_issued cfg s'"
  using assms unfolding entries_issued_def by metis

lemma entries_issued_del:
  assumes "entries_issued cfg s" and "redis s' = redis_del (redis s) k"
    and "\<And>i. findOne_id (users s) i \<noteq> None \<Longrightarrow> findOne_id (users s') i \<noteq> None"
  shows "entries_issued cfg s'"
  using assms unfolding entries_issued_def redis_del_def
  by (auto split: if_splits) metis+

lemma findOne_id_append: "findOne_id us i \<noteq> None \<Longrightarrow> findOne_id (us @ [u]) i \<noteq> None"
  by (induction us) (auto simp: findOne_id_def)

lemma findOne_id_of_found: "findOne_email us e = Some u \<Longrightarrow> findOne_id us (id_user u) \<noteq> None"
  by (induction us) (auto simp: findOne_email_def findOne_id_def split: if_splits)

lemma findOne_id_updated:
  assumes "\<And>u. id_user (f u) = id_user u" and "findOne_id us i \<noteq> None"
  shows "findOne_id (fst (update_where_id us j f)) i \<noteq> None"
  using assms by (simp add: findOne_id_update_where_id)

lemma entries_issued_set_verify:
  assumes "keys_apart cfg" and "entries_issued cfg s" and "v \<noteq> []"
    and "redis s' = redis_set_EX (redis_del (redis s) (VERIFY_EMAIL_PREFIX cfg @ string_of_number j))
                      now (VERIFY_EMAIL_PREFIX cfg @ string_of_number j) v n"
    and "\<And>i. findOne_id (users s) i \<noteq> None \<Longrightarrow> findOne_id (users s') i \<noteq> None"
  shows "entries_issued cfg s'"
  unfolding entries_issued_def
proof (intro conjI allI impI)
  fix e w x
  assume "redis s' (FORGOT_PASSWORD_PREFIX cfg @ e) = Some \<lparr>entry_value = w, entry_expires_at = x\<rparr>"
  with assms(1,4) have "redis s (FORGOT_PASSWORD_PREFIX cfg @ e) =
      Some \<lparr>entry_value = w, entry_expires_at = x\<rparr>"
    by (simp add: keys_apart_def redis_set_EX_def redis_del_def)
  with assms(2) obtain i c where "w = string_of_number i @ '':'' @ c" "CHR '':'' \<notin> set c"
      "findOne_id (users s) i \<noteq> None"
    unfolding entries_issued_def by metis
  with assms(5) show "\<exists>i c. w = string_of_number i @ '':'' @ c \<and> CHR '':'' \<notin> set c
                 \<and> findOne_id (users s') i \<noteq> None"
    by metis
next
  fix i w x
  assume a: "redis s' (VERIFY_EMAIL_PREFIX cfg @ string_of_number i) =
      Some \<lparr>entry_value = w, entry_expires_at = x\<rparr>"
  show "w \<noteq> []"
  proof (cases "VERIFY_EMAIL_PREFIX cfg @ string_of_number i = VERIFY_EMAIL_PREFIX cfg @ string_of_number j")
    case True
    with a assms(3,4) show ?thesis by (simp add: redis_set_EX_def)
  next
    case False
    with a assms(4) have "redis s (VERIFY_EMAIL_PREFIX cfg @ string_of_number i) =
        Some \<lparr>entry_value = w, entry_expires_at = x\<rparr>"
      by (simp add: redis_set_EX_def redis_del_def)
    with assms(2) show ?thesis unfolding entries_issued_def by metis
  qed
qed

lemma entries_issued_set_reset:
  assumes "keys_apart cfg" and "entries_issued cfg s" and "CHR '':'' \<notin> set c"
    and "findOne_id (users s) j \<noteq> None"
    and "redis s' = redis_set_EX (redis_del (redis s) (FORGOT_PASSWORD_PREFIX cfg @ e'))
                      now (FORGOT_PASSWORD_PREFIX cfg @ e') (string_of_number j @ '':'' @ c) n"
    and "users s' = users s"
  shows "entries_issued cfg s'"
  unfolding entries_issued_def
proof (intro conjI allI impI)
  fix e w x
  assume a: "redis s' (FORGOT_PASSWORD_PREFIX cfg @ e) = Some \<lparr>entry_value = w, entry_expires_at = x\<rparr>"
  show "\<exists>i c. w = string_of_number i @ '':'' @ c \<and> CHR '':'' \<notin> set c
                 \<and> findOne_id (users s') i \<noteq> None"
  proof (cases "e = e'")
    case True
    with a assms(5) have "w = string_of_number j @ '':'' @ c" by (simp add: redis_set_EX_def)
    with assms(3,4,6) show ?thesis by metis
  next
    case False
    with a assms(5) have "redis s (FORGOT_PASSWORD_PREFIX cfg @ e) =
        Some \<lparr>entry_value = w, entry_expires_at = x\<rparr>"
      by (simp add: redis_set_EX_def redis_del_def)
    with assms(2) obtain i d where "w = string_of_number i @ '':'' @ d" "CHR '':'' \<notin> set d"
        "findOne_id (users s) i \<noteq> None"
      unfolding entries_issued_def by metis
    with assms(6) show ?thesis by metis
  qed
next
  fix i w x
  assume "redis s' (VERIFY_EMAIL_PREFIX cfg @ string_of_number i) =
      Some \<lparr>entry_value = w, entry_expires_at = x\<rparr>"
  with assms(1,5) have "redis s (VERIFY_EMAIL_PREFIX cfg @ string_of_number i) =
      Some \<lparr>entry_value = w, entry_expires_at = x\<rparr>"
    by (simp add: keys_apart_def redis_set_EX_def redis_del_def) metis
  with assms(2) show "w \<noteq> []" unfolding entries_issued_def by metis
qed

lemma register_entries_issued:
  assumes "keys_apart cfg" and "entries_issued cfg s" and "otp \<noteq> []"
  shows "entries_issued cfg (fst (register cfg s now otp e n p))"
proof (cases "User_save cfg (users s) e n (argon2_hash cfg p)")
  case (Inl err)
  then have "fst (register cfg s now otp e n p) = s"
    by (simp add: register_def split: option.splits)
  with assms(2) show ?thesis by simp
next
  case (Inr u)
  let ?s' = "fst (register cfg s now otp e n p)"
  from Inr have r: "redis ?s' =
      redis_set_EX (redis_del (redis s) (VERIFY_EMAIL_PREFIX cfg @ string_of_number (id_user u)))
        now (VERIFY_EMAIL_PREFIX cfg @ string_of_number (id_user u)) otp (1000 * 60 * 60)"
    and u: "users ?s' = users s @ [u]"
    by (simp_all add: register_def Let_def sendEmail_def redis_set_after_del)
  show ?thesis
    by (rule entries_issued_set_verify [OF assms r]) (simp add: u findOne_id_append)
qed

lemma changeUsername_entries_issued:
  assumes "entries_issued cfg s"
  shows "entries_issued cfg (fst (changeUsername cfg s up n))"
proof (cases "findOne_username (users s) n")
  case (Some d)
  with assms show ?thesis by (simp add: changeUsername_def)
next
  case None
  show ?thesis
    by (rule entries_issued_users [OF assms])
       (simp_all add: None changeUsername_def Let_def findOne_id_updated)
qed

lemma changeEmail_entries_issued:
  assumes "entries_issued cfg s"
  shows "entries_issued cfg (fst (changeEmail cfg s up e))"
proof (cases "findOne_email (users s) e")
  case (Some d)
  with assms show ?thesis by (simp add: changeEmail_def)
next
  case None
  show ?thesis
    by (rule entries_issued_users [OF assms])
       (simp_all add: None changeEmail_def Let_def findOne_id_updated)
qed

lemma changePassword_entries_issued:
  assumes "entries_issued cfg s"
  shows "entries_issued cfg (fst (changePassword cfg s up old new))"
proof (cases "argon2_verify cfg (password up) old")
  case False
  with assms show ?thesis by (simp add: changePassword_def)
next
  case True
  show ?thesis
    by (rule entries_issued_users [OF assms])
       (simp_all add: True changePassword_def Let_def findOne_id_updated)
qed

lemma changeForgotPassword_state:
  "fst (changeForgotPassword cfg s now e t p) = s
   \<or> (\<exists>i. fst (changeForgotPassword cfg s now e t p) =
          send_DEL
            (s\<lparr>users := fst (update_where_id (users s) i
                              (\<lambda>u. u\<lparr>password := argon2_hash cfg p,
                                     token_version := token_version u + 1\<rparr>))\<rparr>)
            (FORGOT_PASSWORD_PREFIX cfg @ e))"
  by (auto simp: changeForgotPassword_def Let_def split: option.splits)

lemma changeForgotPassword_entries_issued:
  assumes "entries_issued cfg s"
  shows "entries_issued cfg (fst (changeForgotPassword cfg s now e t p))"
  using changeForgotPassword_state [of cfg s now e t p]
proof (elim disjE exE)
  assume "fst (changeForgotPassword cfg s now e t p) = s"
  with assms show ?thesis by simp
next
  fix i
  assume r: "fst (changeForgotPassword cfg s now e t p) =
          send_DEL
            (s\<lparr>users := fst (update_where_id (users s) i
                              (\<lambda>u. u\<lparr>password := argon2_hash cfg p,
                                     token_version := token_version u + 1\<rparr>))\<rparr>)
            (FORGOT_PASSWORD_PREFIX cfg @ e)"
  show ?thesis
    unfolding r
    by (rule entries_issued_del [OF assms, where k = "FORGOT_PASSWORD_PREFIX cfg @ e"])
       (simp_all add: findOne_id_updated)
qed

lemma forgotPassword_entries_issued:
  assumes "keys_apart cfg" and "entries_issued cfg s" and "CHR '':'' \<notin> set otp"
  shows "entries_issued cfg (fst (forgotPassword cfg s now otp e))"
proof (cases "findOne_email (users s) e")
  case None
  with assms(2) show ?thesis by (simp add: forgotPassword_def)
next
  case (Some u)
  show ?thesis
    unfolding forgotPassword_known [OF Some] fst_conv
    by (rule entries_issued_set_reset [OF assms findOne_id_of_found [OF Some],
            where e' = e and now = now and n = "1000 * 60 * 60"])
       simp_all
qed

lemma verifyEmail_state:
  "fst (verifyEmail cfg s now up t) = s
   \<or> fst (verifyEmail cfg s now up t) =
        send_DEL
          (s\<lparr>users := fst (update_where_id (users s) (id_user up) (\<lambda>u. u\<lparr>verified := True\<rparr>))\<rparr>)
          (VERIFY_EMAIL_PREFIX cfg @ string_of_number (id_user up))"
  by (auto simp: verifyEmail_def Let_def split: option.splits)

lemma verifyEmail_entries_issued:
  assumes "entries_issued cfg s"
  shows "entries_issued cfg (fst (verifyEmail cfg s now up t))"
  using verifyEmail_state [of cfg s now up t]
proof
  assume "fst (verifyEmail cfg s now up t) = s"
  with assms show ?thesis by simp
next
  assume r: "fst (verifyEmail cfg s now up t) =
        send_DEL
          (s\<lparr>users := fst (update_where_id (users s) (id_user up) (\<lambda>u. u\<lparr>verified := True\<rparr>))\<rparr>)
          (VERIFY_EMAIL_PREFIX cfg @ string_of_number (id_user up))"
  show ?thesis
    unfolding r
    by (rule entries_issued_del [OF assms,
            where k = "VERIFY_EMAIL_PREFIX cfg @ string_of_number (id_user up)"])
       (simp_all add: findOne_id_updated)
qed

lemma sendVerifyEmail_entries_issued:
  assumes "keys_apart cfg" and "entries_issued cfg s" and "otp \<noteq> []"
  shows "entries_issued cfg (fst (sendVerifyEmail cfg s now otp up))"
  unfolding sendVerifyEmail_result fst_conv
  by (rule entries_issued_set_verify [OF assms, where j = "id_user up" and now = now
          and n = "1000 * 60 * 60"]) simp_all

lemma login_state: "fst (login cfg s now e p) = s"
  by (simp add: login_def Let_def split: option.splits)

lemma reachable_entries_issued:
  assumes "keys_apart cfg" and "reachable cfg s"
  shows "entries_issued cfg s"
  using assms(2)
proof (induction rule: reachable.induct)
  case (start s)
  then show ?case by (simp add: entries_issued_def)
next
  case (call s c now)
  then show ?case
    by (cases c)
       (simp_all add: code_ok_def assms(1) register_entries_issued changeUsername_entries_issued
          changeEmail_entries_issued changePassword_entries_issued
          changeForgotPassword_entries_issued forgotPassword_entries_issued
          verifyEmail_entries_issued sendVerifyEmail_entries_issued login_state
          refreshRoute_state)
qed

lemma reachable_reset_entry:
  assumes "keys_apart cfg" and "reachable cfg s"
    and "redis_get (redis s) now (FORGOT_PASSWORD_PREFIX cfg @ e) = Some v"
  shows "\<exists>i c u. v = string_of_number i @ '':'' @ c \<and> CHR '':'' \<notin> set c
           \<and> findOne_id (users s) i = Some u"
proof -
  from assms(3) obtain a where a: "redis s (FORGOT_PASSWORD_PREFIX cfg @ e) = Some a"
      "v = entry_value a"
    by (cases "redis s (FORGOT_PASSWORD_PREFIX cfg @ e)")
       (auto simp: redis_get_def split: if_splits)
  then have "redis s (FORGOT_PASSWORD_PREFIX cfg @ e) =
      Some \<lparr>entry_value = v, entry_expires_at = entry_expires_at a\<rparr>"
    by simp
  with reachable_entries_issued [OF assms(1,2)] show ?thesis
    unfolding entries_issued_def by (metis not_None_eq)
qed

lemma reachable_verify_entry:
  assumes "keys_apart cfg" and "reachable cfg s"
    and "redis_get (redis s) now (VERIFY_EMAIL_PREFIX cfg @ string_of_number i) = Some v"
  shows "v \<noteq> []"
proof -
  from assms(3) obtain a where a: "redis s (VERIFY_EMAIL_PREFIX cfg @ string_of_number i) = Some a"
      "v = entry_value a"
    by (cases "redis s (VERIFY_EMAIL_PREFIX cfg @ string_of_number i)")
       (auto simp: redis_get_def split: if_splits)
  then have "redis s (VERIFY_EMAIL_PREFIX cfg @ string_of_number i) =
      Some \<lparr>entry_value = v, entry_expires_at = entry_expires_at a\<rparr>"
    by simp
  with reachable_entries_issued [OF assms(1,2)] show ?thesis
    unfolding entries_issued_def by metis
qed

subsection \<open>The example state\<close>

lemma example_known: "findOne_email (users example_state) ''a@x.com'' = Some alice"
  by (simp add: findOne_email_def example_state_def alice_def)

lemma example_stored: "findOne_id (users example_state) (id_user alice) = Some alice"
  by (simp add: example_state_def findOne_id_def)

lemma example_verify_entry:
  "redis_get (redis state_after_sendVerifyEmail) 5
     (VERIFY_EMAIL_PREFIX example_config @ string_of_number (id_user alice)) = Some ''123456''"
  by (simp add: state_after_sendVerifyEmail_def sendVerifyEmail_result redis_get_set)

lemma example_reset_entry:
  "redis_get (redis state_after_forgotPassword) 5
     (FORGOT_PASSWORD_PREFIX example_config @ ''a@x.com'') =
   Some (string_of_number (id_user alice) @ '':'' @ ''123456'')"
  by (simp add: state_after_forgotPassword_def forgotPassword_known [OF example_known]
        redis_get_set)

lemma example_reset_user:
  "findOne_id (users state_after_forgotPassword) (id_user alice) = Some alice"
  unfolding state_after_forgotPassword_def forgotPassword_known [OF example_known]
  by (simp add: example_state_def findOne_id_def)

lemma example_no_entries:
  "redis_get (redis example_state) now k = None"
  by (simp add: example_state_def redis_get_def)

lemma example_keys_apart: "keys_apart example_config"
  by (simp add: keys_apart_def example_config_def)

lemma example_reachable:
  "reachable example_config state_after_forgotPassword"
  "reachable example_config state_after_sendVerifyEmail"
proof -
  have start: "reachable example_config example_state"
    by (rule reachable.start) (simp add: example_state_def)
  have "reachable example_config (after example_config example_state 0 (ForgotPassword ''123456'' ''a@x.com''))"
    by (rule reachable.call [OF start]) (simp add: code_ok_def)
  then show "reachable example_config state_after_forgotPassword"
    by (simp add: state_after_forgotPassword_def)
  have "reachable example_config (after example_config example_state 0 (SendVerifyEmail ''123456'' alice))"
    by (rule reachable.call [OF start]) (simp add: code_ok_def)
  then show "reachable example_config state_after_sendVerifyEmail"
    by (simp add: state_after_sendVerifyEmail_def)
qed

lemma example_reset_result:
  "snd (snd (changeForgotPassword example_config state_after_forgotPassword 5
               ''a@x.com'' ''123456'' ''pw2'')) =
   Returned (auth_response example_config 5
     (alice\<lparr>password := argon2_hash example_config ''pw2'',
            token_version := token_version alice + 1\<rparr>))"
proof -
  have colon: "CHR '':'' \<notin> set ''123456''" by simp
  show ?thesis
    unfolding changeForgotPassword_match [OF example_reset_entry colon example_reset_user]
    by simp
qed

section \<open>One-time codes\<close>

text \<open>
  C3. Every call site that issues a one-time code (\<open>register\<close>, \<open>forgotPassword\<close>,
  \<open>sendVerifyEmail\<close>) is meant to store it for one hour, 3600 seconds, as the comment
  at each call says. Each of them calls \<open>redis.set(key, value, "EX", 1000 * 60 * 60)\<close>, and
  \<open>EX\<close> counts seconds: the entry is stored for 3600000 seconds and is still there one
  hour after the code was issued.
\<close>

theorem issued_codes_live_1000_hours:
  "redis_ttl (redis (fst (register example_config empty_state 0 ''123456'' ''a@x.com'' ''a'' ''pw1'')))
      0 ''verify-email:1'' = Some 3600000
   \<and> redis_ttl (redis (fst (forgotPassword example_config example_state 0 ''123456'' ''a@x.com'')))
      0 ''forgot-password:a@x.com'' = Some 3600000
   \<and> redis_ttl (redis (fst (sendVerifyEmail example_config example_state 0 ''123456'' alice)))
      0 ''verify-email:1'' = Some 3600000
   \<and> redis_get (redis (fst (sendVerifyEmail example_config example_state 0 ''123456'' alice)))
      3600 ''verify-email:1'' = Some ''123456''
   \<and> redis_ttl (redis (fst (sendVerifyEmail example_config example_state 0 ''123456'' alice)))
      0 ''verify-email:1'' \<noteq> Some 3600"
proof (intro conjI)
  show "redis_ttl (redis (fst (register example_config empty_state 0 ''123456'' ''a@x.com'' ''a'' ''pw1'')))
      0 ''verify-email:1'' = Some 3600000"
    by (simp add: Let_def register_def example_config_def empty_state_def example_save_def
          sendEmail_def redis_set_EX_def redis_ttl_def string_of_number_1)
  show "redis_ttl (redis (fst (forgotPassword example_config example_state 0 ''123456'' ''a@x.com'')))
      0 ''forgot-password:a@x.com'' = Some 3600000"
    by (simp add: Let_def forgotPassword_def example_config_def example_state_def alice_def
          findOne_email_def sendEmail_def redis_set_EX_def redis_ttl_def redis_exists_def
          redis_get_def)
  show "redis_ttl (redis (fst (sendVerifyEmail example_config example_state 0 ''123456'' alice)))
      0 ''verify-email:1'' = Some 3600000"
    by (simp add: Let_def sendVerifyEmail_def example_config_def example_state_def alice_def
          sendEmail_def redis_set_EX_def redis_ttl_def redis_exists_def redis_get_def
          string_of_number_1)
  show "redis_get (redis (fst (sendVerifyEmail example_config example_state 0 ''123456'' alice)))
      3600 ''verify-email:1'' = Some ''123456''"
    by (simp add: Let_def sendVerifyEmail_def example_config_def example_state_def alice_def
          sendEmail_def redis_set_EX_def redis_exists_def redis_get_def
          string_of_number_1)
  show "redis_ttl (redis (fst (sendVerifyEmail example_config example_state 0 ''123456'' alice)))
      0 ''verify-email:1'' \<noteq> Some 3600"
    by (simp add: Let_def sendVerifyEmail_def example_config_def example_state_def alice_def
          sendEmail_def redis_set_EX_def redis_ttl_def redis_exists_def redis_get_def
          string_of_number_1)
qed

text \<open>
  C4. \<open>verifyEmail\<close> (keyed by the identifier of the authenticated user) and
  \<open>changeForgotPassword\<close> (keyed by the e-mail address): with no entry in the cache the
  call fails with \<open>Token Expired\<close>; with an entry whose code is not the presented one
  it fails with \<open>Token Invalid\<close> and leaves the state, and so the entry, as it was;
  with the matching code it succeeds and deletes the entry, so that the same call made
  again fails with \<open>Token Expired\<close>. The entries are the ones the issuing resolvers
  write: a code that is not empty, and for a reset \<open>id:code\<close> with a code without
  \<open>:\<close> and the identifier of a stored user. Every entry that \<open>GET\<close> returns in a
  reachable state is of this kind (\<open>reachable_verify_entry\<close>, \<open>reachable_reset_entry\<close>).
\<close>

theorem verify_and_consume:
  "(redis_get (redis s) now (VERIFY_EMAIL_PREFIX cfg @ string_of_number (id_user up)) = None \<longrightarrow>
      verifyEmail cfg s now up t =
        (s, \<lparr>errors = Some [\<lparr>field = ''token'', message = ''Token Expired''\<rparr>], user = None\<rparr>))
   \<and> (\<forall>c. redis_get (redis s) now (VERIFY_EMAIL_PREFIX cfg @ string_of_number (id_user up)) = Some c
          \<and> c \<noteq> [] \<and> c \<noteq> t \<longrightarrow>
      verifyEmail cfg s now up t =
        (s, \<lparr>errors = Some [\<lparr>field = ''token'', message = ''Token Invalid''\<rparr>], user = None\<rparr>))
   \<and> (redis_get (redis s) now (VERIFY_EMAIL_PREFIX cfg @ string_of_number (id_user up)) = Some t
          \<and> t \<noteq> [] \<longrightarrow>
      errors (snd (verifyEmail cfg s now up t)) = None
      \<and> redis (fst (verifyEmail cfg s now up t))
           (VERIFY_EMAIL_PREFIX cfg @ string_of_number (id_user up)) = None
      \<and> snd (verifyEmail cfg (fst (verifyEmail cfg s now up t)) later up t) =
           \<lparr>errors = Some [\<lparr>field = ''token'', message = ''Token Expired''\<rparr>], user = None\<rparr>)
   \<and> (redis_get (redis s) now (FORGOT_PASSWORD_PREFIX cfg @ e) = None \<longrightarrow>
      changeForgotPassword cfg s now e t pw =
        (s, [], Returned \<lparr>errors = Some [\<lparr>field = ''token'', message = ''Token Expired''\<rparr>],
                          user = None, auth = None\<rparr>))
   \<and> (\<forall>i c. redis_get (redis s) now (FORGOT_PASSWORD_PREFIX cfg @ e) =
               Some (string_of_number i @ '':'' @ c)
          \<and> CHR '':'' \<notin> set c \<and> c \<noteq> t \<longrightarrow>
      changeForgotPassword cfg s now e t pw =
        (s, [], Returned \<lparr>errors = Some [\<lparr>field = ''token'', message = ''Token Invalid''\<rparr>],
                          user = None, auth = None\<rparr>))
   \<and> (\<forall>i u. redis_get (redis s) now (FORGOT_PASSWORD_PREFIX cfg @ e) =
               Some (string_of_number i @ '':'' @ t)
          \<and> CHR '':'' \<notin> set t \<and> findOne_id (users s) i = Some u \<longrightarrow>
      (\<exists>r. snd (snd (changeForgotPassword cfg s now e t pw)) = Returned r \<and> errors r = None)
      \<and> redis (fst (changeForgotPassword cfg s now e t pw)) (FORGOT_PASSWORD_PREFIX cfg @ e) = None
      \<and> snd (snd (changeForgotPassword cfg (fst (changeForgotPassword cfg s now e t pw))
                     later e t pw')) =
           Returned \<lparr>errors = Some [\<lparr>field = ''token'', message = ''Token Expired''\<rparr>],
                     user = None, auth = None\<rparr>)"
proof (intro conjI allI impI)
  assume "redis_get (redis s) now (VERIFY_EMAIL_PREFIX cfg @ string_of_number (id_user up)) = None"
  then show "verifyEmail cfg s now up t =
        (s, \<lparr>errors = Some [\<lparr>field = ''token'', message = ''Token Expired''\<rparr>], user = None\<rparr>)"
    by (rule verifyEmail_absent)
next
  fix c
  assume "redis_get (redis s) now (VERIFY_EMAIL_PREFIX cfg @ string_of_number (id_user up)) = Some c
          \<and> c \<noteq> [] \<and> c \<noteq> t"
  then show "verifyEmail cfg s now up t =
        (s, \<lparr>errors = Some [\<lparr>field = ''token'', message = ''Token Invalid''\<rparr>], user = None\<rparr>)"
    by (simp add: verifyEmail_mismatch)
next
  assume m: "redis_get (redis s) now (VERIFY_EMAIL_PREFIX cfg @ string_of_number (id_user up)) = Some t
          \<and> t \<noteq> []"
  then have r: "verifyEmail cfg s now up t =
     (send_DEL
        (s\<lparr>users := map (\<lambda>u. if id_user u = id_user up then u\<lparr>verified := True\<rparr> else u) (users s)\<rparr>)
        (VERIFY_EMAIL_PREFIX cfg @ string_of_number (id_user up)),
      \<lparr>errors = None,
       user = map_option (\<lambda>u. u\<lparr>verified := True\<rparr>) (findOne_id (users s) (id_user up))\<rparr>)"
    by (simp add: verifyEmail_match)
  show "errors (snd (verifyEmail cfg s now up t)) = None"
    unfolding r by simp
  show "redis (fst (verifyEmail cfg s now up t))
           (VERIFY_EMAIL_PREFIX cfg @ string_of_number (id_user up)) = None"
    unfolding r by (simp add: redis_del_def)
  show "snd (verifyEmail cfg (fst (verifyEmail cfg s now up t)) later up t) =
           \<lparr>errors = Some [\<lparr>field = ''token'', message = ''Token Expired''\<rparr>], user = None\<rparr>"
    unfolding r fst_conv by (subst verifyEmail_absent) (simp_all add: redis_get_del)
next
  assume "redis_get (redis s) now (FORGOT_PASSWORD_PREFIX cfg @ e) = None"
  then show "changeForgotPassword cfg s now e t pw =
        (s, [], Returned \<lparr>errors = Some [\<lparr>field = ''token'', message = ''Token Expired''\<rparr>],
                          user = None, auth = None\<rparr>)"
    by (rule changeForgotPassword_absent)
next
  fix i c
  assume "redis_get (redis s) now (FORGOT_PASSWORD_PREFIX cfg @ e) =
               Some (string_of_number i @ '':'' @ c)
          \<and> CHR '':'' \<notin> set c \<and> c \<noteq> t"
  then show "changeForgotPassword cfg s now e t pw =
        (s, [], Returned \<lparr>errors = Some [\<lparr>field = ''token'', message = ''Token Invalid''\<rparr>],
                          user = None, auth = None\<rparr>)"
    by (simp add: changeForgotPassword_mismatch)
next
  fix i u
  assume m: "redis_get (redis s) now (FORGOT_PASSWORD_PREFIX cfg @ e) =
               Some (string_of_number i @ '':'' @ t)
          \<and> CHR '':'' \<notin> set t \<and> findOne_id (users s) i = Some u"
  note r = changeForgotPassword_match [where pw = pw, OF m [THEN conjunct1]
             m [THEN conjunct2, THEN conjunct1] m [THEN conjunct2, THEN conjunct2]]
  show "\<exists>r. snd (snd (changeForgotPassword cfg s now e t pw)) = Returned r \<and> errors r = None"
    unfolding r by (simp add: auth_response_def)
  show "redis (fst (changeForgotPassword cfg s now e t pw)) (FORGOT_PASSWORD_PREFIX cfg @ e) = None"
    unfolding r by (simp add: redis_del_def)
  show "snd (snd (changeForgotPassword cfg (fst (changeForgotPassword cfg s now e t pw))
                     later e t pw')) =
           Returned \<lparr>errors = Some [\<lparr>field = ''token'', message = ''Token Expired''\<rparr>],
                     user = None, auth = None\<rparr>"
    unfolding r fst_conv by (subst changeForgotPassword_absent) (simp_all add: redis_get_del)
qed

theorem verify_and_consume_witness:
  "redis_get (redis state_after_sendVerifyEmail) 5
     (VERIFY_EMAIL_PREFIX example_config @ string_of_number (id_user alice)) = Some ''123456''
   \<and> redis_get (redis state_after_forgotPassword) 5
     (FORGOT_PASSWORD_PREFIX example_config @ ''a@x.com'') =
       Some (string_of_number (id_user alice) @ '':'' @ ''123456'')
   \<and> verifyEmail example_config example_state 5 alice ''123456'' =
       (example_state,
        \<lparr>errors = Some [\<lparr>field = ''token'', message = ''Token Expired''\<rparr>], user = None\<rparr>)
   \<and> verifyEmail example_config state_after_sendVerifyEmail 5 alice ''000000'' =
       (state_after_sendVerifyEmail,
        \<lparr>errors = Some [\<lparr>field = ''token'', message = ''Token Invalid''\<rparr>], user = None\<rparr>)
   \<and> (errors (snd (verifyEmail example_config state_after_sendVerifyEmail 5 alice ''123456'')) = None
      \<and> redis (fst (verifyEmail example_config state_after_sendVerifyEmail 5 alice ''123456''))
           (VERIFY_EMAIL_PREFIX example_config @ string_of_number (id_user alice)) = None
      \<and> snd (verifyEmail example_config
                (fst (verifyEmail example_config state_after_sendVerifyEmail 5 alice ''123456''))
                6 alice ''123456'') =
           \<lparr>errors = Some [\<lparr>field = ''token'', message = ''Token Expired''\<rparr>], user = None\<rparr>)
   \<and> changeForgotPassword example_config example_state 5 ''a@x.com'' ''123456'' ''pw2'' =
       (example_state, [],
        Returned \<lparr>errors = Some [\<lparr>field = ''token'', message = ''Token Expired''\<rparr>],
                  user = None, auth = None\<rparr>)
   \<and> changeForgotPassword example_config state_after_forgotPassword 5 ''a@x.com'' ''000000'' ''pw2'' =
       (state_after_forgotPassword, [],
        Returned \<lparr>errors = Some [\<lparr>field = ''token'', message = ''Token Invalid''\<rparr>],
                  user = None, auth = None\<rparr>)
   \<and> ((\<exists>r. snd (snd (changeForgotPassword example_config state_after_forgotPassword 5
                        ''a@x.com'' ''123456'' ''pw2'')) = Returned r \<and> errors r = None)
      \<and> redis (fst (changeForgotPassword example_config state_after_forgotPassword 5
                      ''a@x.com'' ''123456'' ''pw2''))
           (FORGOT_PASSWORD_PREFIX example_config @ ''a@x.com'') = None
      \<and> snd (snd (changeForgotPassword example_config
                     (fst (changeForgotPassword example_config state_after_forgotPassword 5
                             ''a@x.com'' ''123456'' ''pw2''))
                     6 ''a@x.com'' ''123456'' ''pw3'')) =
           Returned \<lparr>errors = Some [\<lparr>field = ''token'', message = ''Token Expired''\<rparr>],
                     user = None, auth = None\<rparr>)"
proof -
  have wrong_verify: "redis_get (redis state_after_sendVerifyEmail) 5
       (VERIFY_EMAIL_PREFIX example_config @ string_of_number (id_user alice)) = Some ''123456''
     \<and> ''123456'' \<noteq> [] \<and> ''123456'' \<noteq> ''000000''"
    using example_verify_entry by simp
  have right_verify: "redis_get (redis state_after_sendVerifyEmail) 5
       (VERIFY_EMAIL_PREFIX example_config @ string_of_number (id_user alice)) = Some ''123456''
     \<and> ''123456'' \<noteq> []"
    using example_verify_entry by simp
  have wrong_reset: "redis_get (redis state_after_forgotPassword) 5
       (FORGOT_PASSWORD_PREFIX example_config @ ''a@x.com'') =
         Some (string_of_number (id_user alice) @ '':'' @ ''123456'')
     \<and> CHR '':'' \<notin> set ''123456'' \<and> ''123456'' \<noteq> ''000000''"
    using example_reset_entry by simp
  have right_reset: "redis_get (redis state_after_forgotPassword) 5
       (FORGOT_PASSWORD_PREFIX example_config @ ''a@x.com'') =
         Some (string_of_number (id_user alice) @ '':'' @ ''123456'')
     \<and> CHR '':'' \<notin> set ''123456''
     \<and> findOne_id (users state_after_forgotPassword) (id_user alice) = Some alice"
    using example_reset_entry example_reset_user by simp
  show ?thesis
    by (intro conjI example_verify_entry example_reset_entry
          verify_and_consume [where later = 6, THEN conjunct1, THEN mp, OF example_no_entries]
          verify_and_consume [where later = 6, THEN conjunct2, THEN conjunct1, THEN spec, THEN mp,
            OF wrong_verify]
          verify_and_consume [where later = 6, THEN conjunct2, THEN conjunct2, THEN conjunct1,
            THEN mp, OF right_verify, THEN conjunct1]
          verify_and_consume [where later = 6, THEN conjunct2, THEN conjunct2, THEN conjunct1,
            THEN mp, OF right_verify, THEN conjunct2, THEN conjunct1]
          verify_and_consume [where later = 6, THEN conjunct2, THEN conjunct2, THEN conjunct1,
            THEN mp, OF right_verify, THEN conjunct2, THEN conjunct2]
          verify_and_consume [where later = 6, THEN conjunct2, THEN conjunct2, THEN conjunct2,
            THEN conjunct1, THEN mp, OF example_no_entries]
          verify_and_consume [where later = 6, THEN conjunct2, THEN conjunct2, THEN conjunct2,
            THEN conjunct2, THEN conjunct1, THEN spec, THEN spec, THEN mp, OF wrong_reset]
          verify_and_consume [where later = 6 and pw' = "''pw3''", THEN conjunct2, THEN conjunct2,
            THEN conjunct2, THEN conjunct2, THEN conjunct2, THEN spec, THEN spec, THEN mp,
            OF right_reset, THEN conjunct1]
          verify_and_consume [where later = 6 and pw' = "''pw3''", THEN conjunct2, THEN conjunct2,
            THEN conjunct2, THEN conjunct2, THEN conjunct2, THEN spec, THEN spec, THEN mp,
            OF right_reset, THEN conjunct2, THEN conjunct1]
          verify_and_consume [where later = 6 and pw' = "''pw3''", THEN conjunct2, THEN conjunct2,
            THEN conjunct2, THEN conjunct2, THEN conjunct2, THEN spec, THEN spec, THEN mp,
            OF right_reset, THEN conjunct2, THEN conjunct2])
qed

text \<open>
  C5. Every call of \<open>changeForgotPassword\<close> that succeeds applies one update to the row
  of the user named in the entry, which sets the password to the hash of the new password
  and adds one to \<open>token_version\<close>; the response carries the updated user and an
  access token for it, and the refresh token for it is set as the cookie \<open>qid\<close>,
  \<open>HttpOnly\<close>, with the path \<open>/refresh_token\<close>.
\<close>

theorem changeForgotPassword_success:
  assumes "snd (snd (changeForgotPassword cfg s now e t pw)) = Returned r"
    and "errors r = None"
  shows "\<exists>v i u.
           redis_get (redis s) now (FORGOT_PASSWORD_PREFIX cfg @ e) = Some v
         \<and> at_index (split CHR '':'' v) 1 = Some t
         \<and> Option.bind (at_index (split CHR '':'' v) 0) parseInt = Some i
         \<and> findOne_id (users s) i = Some u
         \<and> users (fst (changeForgotPassword cfg s now e t pw)) =
             map (\<lambda>x. if id_user x = i
                       then x\<lparr>password := argon2_hash cfg pw,
                              token_version := token_version x + 1\<rparr>
                       else x) (users s)
         \<and> redis (fst (changeForgotPassword cfg s now e t pw)) =
             redis_del (redis s) (FORGOT_PASSWORD_PREFIX cfg @ e)
         \<and> outbox (fst (changeForgotPassword cfg s now e t pw)) = outbox s
         \<and> r = \<lparr>errors = None,
                 user = Some (u\<lparr>password := argon2_hash cfg pw,
                                token_version := token_version u + 1\<rparr>),
                 auth = Some \<lparr>access_token = createAccessToken cfg now
                                (u\<lparr>password := argon2_hash cfg pw,
                                   token_version := token_version u + 1\<rparr>),
                              expires_in = ACCESS_TOKEN_EXPIRES_IN cfg\<rparr>\<rparr>
         \<and> fst (snd (changeForgotPassword cfg s now e t pw)) =
             [\<lparr>cookie_name = ''qid'',
               cookie_value = createRefreshToken cfg now
                                (u\<lparr>password := argon2_hash cfg pw,
                                   token_version := token_version u + 1\<rparr>),
               httpOnly = True, path = ''/refresh_token''\<rparr>]"
proof -
  let ?key = "FORGOT_PASSWORD_PREFIX cfg @ e"
  let ?f = "\<lambda>x. x\<lparr>password := argon2_hash cfg pw, token_version := token_version x + 1\<rparr>"
  from assms obtain v where v: "redis_get (redis s) now ?key = Some v"
    by (cases "redis_get (redis s) now ?key")
       (auto simp: changeForgotPassword_def field_error_def)
  from assms v have nonempty: "v \<noteq> []"
    by (auto simp: changeForgotPassword_def field_error_def)
  from assms v nonempty have code: "at_index (split CHR '':'' v) 1 = Some t"
    by (auto simp: changeForgotPassword_def field_error_def Let_def split: if_splits)
  from assms v nonempty code obtain i where
    i: "Option.bind (at_index (split CHR '':'' v) 0) parseInt = Some i"
    by (cases "Option.bind (at_index (split CHR '':'' v) 0) parseInt")
       (auto simp: changeForgotPassword_def Let_def)
  from assms v nonempty code i obtain u where u: "findOne_id (users s) i = Some u"
    by (cases "findOne_id (users s) i")
       (auto simp: changeForgotPassword_def Let_def at_index_update_where_id)
  have result: "changeForgotPassword cfg s now e t pw =
     (send_DEL (s\<lparr>users := map (\<lambda>x. if id_user x = i then ?f x else x) (users s)\<rparr>) ?key,
      [qid_cookie (createRefreshToken cfg now (?f u))],
      Returned (auth_response cfg now (?f u)))"
    using v nonempty code i u
    by (simp add: changeForgotPassword_def Let_def update_where_id_fst at_index_update_where_id)
  from assms(1) have r: "r = auth_response cfg now (?f u)"
    unfolding result by simp
  show ?thesis
    apply (rule exI [of _ v], rule exI [of _ i], rule exI [of _ u])
    unfolding result r using v code i u
    by (simp add: auth_response_def qid_cookie_def)
qed

theorem changeForgotPassword_success_witness:
  "snd (snd (changeForgotPassword example_config state_after_forgotPassword 5
               ''a@x.com'' ''123456'' ''pw2'')) =
     Returned (auth_response example_config 5
       (alice\<lparr>password := argon2_hash example_config ''pw2'',
              token_version := token_version alice + 1\<rparr>))
   \<and> errors (auth_response example_config 5
       (alice\<lparr>password := argon2_hash example_config ''pw2'',
              token_version := token_version alice + 1\<rparr>)) = None
   \<and> (\<exists>v i u.
           redis_get (redis state_after_forgotPassword) 5
             (FORGOT_PASSWORD_PREFIX example_config @ ''a@x.com'') = Some v
         \<and> at_index (split CHR '':'' v) 1 = Some ''123456''
         \<and> Option.bind (at_index (split CHR '':'' v) 0) parseInt = Some i
         \<and> findOne_id (users state_after_forgotPassword) i = Some u
         \<and> users (fst (changeForgotPassword example_config state_after_forgotPassword 5
                          ''a@x.com'' ''123456'' ''pw2'')) =
             map (\<lambda>x. if id_user x = i
                       then x\<lparr>password := argon2_hash example_config ''pw2'',
                              token_version := token_version x + 1\<rparr>
                       else x) (users state_after_forgotPassword)
         \<and> redis (fst (changeForgotPassword example_config state_after_forgotPassword 5
                          ''a@x.com'' ''123456'' ''pw2'')) =
             redis_del (redis state_after_forgotPassword)
               (FORGOT_PASSWORD_PREFIX example_config @ ''a@x.com'')
         \<and> outbox (fst (changeForgotPassword example_config state_after_forgotPassword 5
                           ''a@x.com'' ''123456'' ''pw2'')) =
             outbox state_after_forgotPassword
         \<and> auth_response example_config 5
              (alice\<lparr>password := argon2_hash example_config ''pw2'',
                     token_version := token_version alice + 1\<rparr>) =
             \<lparr>errors = None,
              user = Some (u\<lparr>password := argon2_hash example_config ''pw2'',
                             token_version := token_version u + 1\<rparr>),
              auth = Some \<lparr>access_token = createAccessToken example_config 5
                             (u\<lparr>password := argon2_hash example_config ''pw2'',
                                token_version := token_version u + 1\<rparr>),
                           expires_in = ACCESS_TOKEN_EXPIRES_IN example_config\<rparr>\<rparr>
         \<and> fst (snd (changeForgotPassword example_config state_after_forgotPassword 5
                        ''a@x.com'' ''123456'' ''pw2'')) =
             [\<lparr>cookie_name = ''qid'',
               cookie_value = createRefreshToken example_config 5
                                (u\<lparr>password := argon2_hash example_config ''pw2'',
                                   token_version := token_version u + 1\<rparr>),
               httpOnly = True, path = ''/refresh_token''\<rparr>])"
proof -
  have no_errors: "errors (auth_response example_config 5
       (alice\<lparr>password := argon2_hash example_config ''pw2'',
              token_version := token_version alice + 1\<rparr>)) = None"
    by (simp add: auth_response_def)
  show ?thesis
    by (intro conjI example_reset_result no_errors
          changeForgotPassword_success [OF example_reset_result no_errors])
qed

text \<open>
  C7. Issuing a code for a key that has a live entry sends \<open>DEL\<close> for the key, which
  removes the entry, and then \<open>SET\<close> with the fresh code; with no live entry only
  \<open>SET\<close> is sent. After two issuances in a row (\<open>forgotPassword\<close> for the same e-mail
  address, \<open>sendVerifyEmail\<close> for the same user) the one entry of the key holds the
  second code. The first code no longer verifies when the second code drawn is another
  one (and, for a reset, holds no \<open>:\<close>).
\<close>

theorem reissue_replaces_code:
  "(findOne_email (users s) e = Some u \<longrightarrow>
      (redis_get (redis s) now (FORGOT_PASSWORD_PREFIX cfg @ e) \<noteq> None \<longrightarrow>
         cache_writes (fst (forgotPassword cfg s now otp e)) =
           cache_writes s @
             [DEL (FORGOT_PASSWORD_PREFIX cfg @ e),
              SET_EX (FORGOT_PASSWORD_PREFIX cfg @ e)
                (string_of_number (id_user u) @ '':'' @ otp) (1000 * 60 * 60)]
         \<and> redis_get (redis_del (redis s) (FORGOT_PASSWORD_PREFIX cfg @ e)) now
               (FORGOT_PASSWORD_PREFIX cfg @ e) = None)
      \<and> (redis_get (redis s) now (FORGOT_PASSWORD_PREFIX cfg @ e) = None \<longrightarrow>
         cache_writes (fst (forgotPassword cfg s now otp e)) =
           cache_writes s @
             [SET_EX (FORGOT_PASSWORD_PREFIX cfg @ e)
                (string_of_number (id_user u) @ '':'' @ otp) (1000 * 60 * 60)])
      \<and> (now' < now + 1000 * 60 * 60 \<longrightarrow>
         cache_writes (fst (forgotPassword cfg (fst (forgotPassword cfg s now otp e)) now' otp' e)) =
           cache_writes (fst (forgotPassword cfg s now otp e)) @
             [DEL (FORGOT_PASSWORD_PREFIX cfg @ e),
              SET_EX (FORGOT_PASSWORD_PREFIX cfg @ e)
                (string_of_number (id_user u) @ '':'' @ otp') (1000 * 60 * 60)]
         \<and> redis_get (redis_del (redis (fst (forgotPassword cfg s now otp e)))
                          (FORGOT_PASSWORD_PREFIX cfg @ e))
               now' (FORGOT_PASSWORD_PREFIX cfg @ e) = None)
      \<and> redis (fst (forgotPassword cfg (fst (forgotPassword cfg s now otp e)) now' otp' e)) =
        redis_set_EX
          (redis_del (redis (fst (forgotPassword cfg s now otp e)))
             (FORGOT_PASSWORD_PREFIX cfg @ e))
          now' (FORGOT_PASSWORD_PREFIX cfg @ e)
          (string_of_number (id_user u) @ '':'' @ otp') (1000 * 60 * 60)
      \<and> redis_get (redis (fst (forgotPassword cfg (fst (forgotPassword cfg s now otp e)) now' otp' e)))
           now' (FORGOT_PASSWORD_PREFIX cfg @ e) =
          Some (string_of_number (id_user u) @ '':'' @ otp')
      \<and> (otp \<noteq> otp' \<and> CHR '':'' \<notin> set otp' \<longrightarrow>
           (\<exists>m. changeForgotPassword cfg
                   (fst (forgotPassword cfg (fst (forgotPassword cfg s now otp e)) now' otp' e))
                   later e otp pw =
                 (fst (forgotPassword cfg (fst (forgotPassword cfg s now otp e)) now' otp' e), [],
                  Returned \<lparr>errors = Some [\<lparr>field = ''token'', message = m\<rparr>],
                            user = None, auth = None\<rparr>)
               \<and> (m = ''Token Invalid'' \<or> m = ''Token Expired''))))
   \<and> (redis_get (redis s) now (VERIFY_EMAIL_PREFIX cfg @ string_of_number (id_user up)) \<noteq> None \<longrightarrow>
         cache_writes (fst (sendVerifyEmail cfg s now otp up)) =
           cache_writes s @
             [DEL (VERIFY_EMAIL_PREFIX cfg @ string_of_number (id_user up)),
              SET_EX (VERIFY_EMAIL_PREFIX cfg @ string_of_number (id_user up))
                otp (1000 * 60 * 60)]
         \<and> redis_get (redis_del (redis s) (VERIFY_EMAIL_PREFIX cfg @ string_of_number (id_user up)))
               now (VERIFY_EMAIL_PREFIX cfg @ string_of_number (id_user up)) = None)
   \<and> (redis_get (redis s) now (VERIFY_EMAIL_PREFIX cfg @ string_of_number (id_user up)) = None \<longrightarrow>
         cache_writes (fst (sendVerifyEmail cfg s now otp up)) =
           cache_writes s @
             [SET_EX (VERIFY_EMAIL_PREFIX cfg @ string_of_number (id_user up))
                otp (1000 * 60 * 60)])
   \<and> (now' < now + 1000 * 60 * 60 \<longrightarrow>
         cache_writes (fst (sendVerifyEmail cfg (fst (sendVerifyEmail cfg s now otp up)) now' otp' up)) =
           cache_writes (fst (sendVerifyEmail cfg s now otp up)) @
             [DEL (VERIFY_EMAIL_PREFIX cfg @ string_of_number (id_user up)),
              SET_EX (VERIFY_EMAIL_PREFIX cfg @ string_of_number (id_user up))
                otp' (1000 * 60 * 60)]
         \<and> redis_get (redis_del (redis (fst (sendVerifyEmail cfg s now otp up)))
                          (VERIFY_EMAIL_PREFIX cfg @ string_of_number (id_user up)))
               now' (VERIFY_EMAIL_PREFIX cfg @ string_of_number (id_user up)) = None)
   \<and> redis (fst (sendVerifyEmail cfg (fst (sendVerifyEmail cfg s now otp up)) now' otp' up)) =
        redis_set_EX
          (redis_del (redis (fst (sendVerifyEmail cfg s now otp up)))
             (VERIFY_EMAIL_PREFIX cfg @ string_of_number (id_user up)))
          now' (VERIFY_EMAIL_PREFIX cfg @ string_of_number (id_user up))
          otp' (1000 * 60 * 60)
   \<and> redis_get (redis (fst (sendVerifyEmail cfg (fst (sendVerifyEmail cfg s now otp up)) now' otp' up)))
        now' (VERIFY_EMAIL_PREFIX cfg @ string_of_number (id_user up)) = Some otp'
   \<and> (otp \<noteq> otp' \<longrightarrow>
        (\<exists>m. verifyEmail cfg
                (fst (sendVerifyEmail cfg (fst (sendVerifyEmail cfg s now otp up)) now' otp' up))
                later up otp =
              (fst (sendVerifyEmail cfg (fst (sendVerifyEmail cfg s now otp up)) now' otp' up),
               \<lparr>errors = Some [\<lparr>field = ''token'', message = m\<rparr>], user = None\<rparr>)
            \<and> (m = ''Token Invalid'' \<or> m = ''Token Expired'')))"
proof (intro conjI impI)
  assume known: "findOne_email (users s) e = Some u"
  let ?s1 = "fst (forgotPassword cfg s now otp e)"
  let ?s2 = "fst (forgotPassword cfg ?s1 now' otp' e)"
  let ?key = "FORGOT_PASSWORD_PREFIX cfg @ e"
  let ?v2 = "string_of_number (id_user u) @ '':'' @ otp'"
  note known1 = forgotPassword_again(1) [OF known, of cfg now otp]
  {
    assume "redis_get (redis s) now ?key \<noteq> None"
    then show "cache_writes ?s1 = cache_writes s @
             [DEL ?key, SET_EX ?key (string_of_number (id_user u) @ '':'' @ otp) (1000 * 60 * 60)]"
      by (simp add: forgotPassword_known [OF known])
  }
  show "redis_get (redis_del (redis s) ?key) now ?key = None"
    by (rule redis_get_del)
  {
    assume "redis_get (redis s) now ?key = None"
    then show "cache_writes ?s1 = cache_writes s @
             [SET_EX ?key (string_of_number (id_user u) @ '':'' @ otp) (1000 * 60 * 60)]"
      by (simp add: forgotPassword_known [OF known])
  }
  {
    assume "now' < now + 1000 * 60 * 60"
    then have "redis_get (redis ?s1) now' ?key \<noteq> None"
      by (simp add: forgotPassword_again(2) [OF known])
    then show "cache_writes ?s2 = cache_writes ?s1 @ [DEL ?key, SET_EX ?key ?v2 (1000 * 60 * 60)]"
      by (simp add: forgotPassword_known [OF known1])
  }
  show "redis_get (redis_del (redis ?s1) ?key) now' ?key = None"
    by (rule redis_get_del)
  show second: "redis ?s2 = redis_set_EX (redis_del (redis ?s1) ?key) now' ?key ?v2 (1000 * 60 * 60)"
    by (simp add: forgotPassword_known [OF known1])
  show "redis_get (redis ?s2) now' ?key = Some ?v2"
    unfolding second by (simp add: redis_get_set)
  assume "otp \<noteq> otp' \<and> CHR '':'' \<notin> set otp'"
  then have other: "CHR '':'' \<notin> set otp'" "otp' \<noteq> otp" by auto
  have "redis ?s2 ?key = Some \<lparr>entry_value = ?v2, entry_expires_at = now' + 1000 * 60 * 60\<rparr>"
    unfolding second by (simp add: redis_set_EX_def)
  from changeForgotPassword_other_code [OF this other]
  show "\<exists>m. changeForgotPassword cfg ?s2 later e otp pw =
                 (?s2, [], Returned \<lparr>errors = Some [\<lparr>field = ''token'', message = m\<rparr>],
                            user = None, auth = None\<rparr>)
               \<and> (m = ''Token Invalid'' \<or> m = ''Token Expired'')" .
next
  let ?s1 = "fst (sendVerifyEmail cfg s now otp up)"
  let ?s2 = "fst (sendVerifyEmail cfg ?s1 now' otp' up)"
  let ?key = "VERIFY_EMAIL_PREFIX cfg @ string_of_number (id_user up)"
  {
    assume "redis_get (redis s) now ?key \<noteq> None"
    then show "cache_writes ?s1 = cache_writes s @ [DEL ?key, SET_EX ?key otp (1000 * 60 * 60)]"
      by (simp add: sendVerifyEmail_result)
  }
  show "redis_get (redis_del (redis s) ?key) now ?key = None"
    by (rule redis_get_del)
  {
    assume "redis_get (redis s) now ?key = None"
    then show "cache_writes ?s1 = cache_writes s @ [SET_EX ?key otp (1000 * 60 * 60)]"
      by (simp add: sendVerifyEmail_result)
  }
  {
    assume "now' < now + 1000 * 60 * 60"
    then have "redis_get (redis ?s1) now' ?key \<noteq> None"
      by (simp add: sendVerifyEmail_again)
    then show "cache_writes ?s2 = cache_writes ?s1 @ [DEL ?key, SET_EX ?key otp' (1000 * 60 * 60)]"
      by (simp add: sendVerifyEmail_result [of cfg ?s1])
  }
  show "redis_get (redis_del (redis ?s1) ?key) now' ?key = None"
    by (rule redis_get_del)
  show second: "redis ?s2 = redis_set_EX (redis_del (redis ?s1) ?key) now' ?key otp' (1000 * 60 * 60)"
    by (simp add: sendVerifyEmail_result)
  show "redis_get (redis ?s2) now' ?key = Some otp'"
    unfolding second by (simp add: redis_get_set)
  assume "otp \<noteq> otp'"
  then have other: "otp' \<noteq> otp" by simp
  have "redis ?s2 ?key = Some \<lparr>entry_value = otp', entry_expires_at = now' + 1000 * 60 * 60\<rparr>"
    unfolding second by (simp add: redis_set_EX_def)
  from verifyEmail_other_code [OF this other]
  show "\<exists>m. verifyEmail cfg ?s2 later up otp =
              (?s2, \<lparr>errors = Some [\<lparr>field = ''token'', message = m\<rparr>], user = None\<rparr>)
            \<and> (m = ''Token Invalid'' \<or> m = ''Token Expired'')" .
qed

theorem reissue_replaces_code_witness:
  "findOne_email (users example_state) ''a@x.com'' = Some alice
   \<and> ''123456'' \<noteq> ''654321'' \<and> CHR '':'' \<notin> set ''654321''
   \<and> redis_get (redis example_state) 0 (FORGOT_PASSWORD_PREFIX example_config @ ''a@x.com'') = None
   \<and> cache_writes (fst (forgotPassword example_config example_state 0 ''123456'' ''a@x.com'')) =
       cache_writes example_state @
         [SET_EX (FORGOT_PASSWORD_PREFIX example_config @ ''a@x.com'')
            (string_of_number (id_user alice) @ '':'' @ ''123456'') (1000 * 60 * 60)]
   \<and> redis_get (redis state_after_forgotPassword) 60
         (FORGOT_PASSWORD_PREFIX example_config @ ''a@x.com'') \<noteq> None
   \<and> (cache_writes (fst (forgotPassword example_config state_after_forgotPassword 60
                          ''654321'' ''a@x.com'')) =
       cache_writes state_after_forgotPassword @
         [DEL (FORGOT_PASSWORD_PREFIX example_config @ ''a@x.com''),
          SET_EX (FORGOT_PASSWORD_PREFIX example_config @ ''a@x.com'')
            (string_of_number (id_user alice) @ '':'' @ ''654321'') (1000 * 60 * 60)]
      \<and> redis_get (redis_del (redis state_after_forgotPassword)
                       (FORGOT_PASSWORD_PREFIX example_config @ ''a@x.com''))
            60 (FORGOT_PASSWORD_PREFIX example_config @ ''a@x.com'') = None)
   \<and> redis_get (redis (fst (forgotPassword example_config
          (fst (forgotPassword example_config example_state 0 ''123456'' ''a@x.com''))
          60 ''654321'' ''a@x.com'')))
        60 (FORGOT_PASSWORD_PREFIX example_config @ ''a@x.com'') =
       Some (string_of_number (id_user alice) @ '':'' @ ''654321'')
   \<and> (\<exists>m. changeForgotPassword example_config
              (fst (forgotPassword example_config
                 (fst (forgotPassword example_config example_state 0 ''123456'' ''a@x.com''))
                 60 ''654321'' ''a@x.com''))
              120 ''a@x.com'' ''123456'' ''pw2'' =
            (fst (forgotPassword example_config
                 (fst (forgotPassword example_config example_state 0 ''123456'' ''a@x.com''))
                 60 ''654321'' ''a@x.com''), [],
             Returned \<lparr>errors = Some [\<lparr>field = ''token'', message = m\<rparr>],
                       user = None, auth = None\<rparr>)
          \<and> (m = ''Token Invalid'' \<or> m = ''Token Expired''))
   \<and> redis_get (redis example_state) 0
         (VERIFY_EMAIL_PREFIX example_config @ string_of_number (id_user alice)) = None
   \<and> cache_writes (fst (sendVerifyEmail example_config example_state 0 ''123456'' alice)) =
       cache_writes example_state @
         [SET_EX (VERIFY_EMAIL_PREFIX example_config @ string_of_number (id_user alice))
            ''123456'' (1000 * 60 * 60)]
   \<and> redis_get (redis state_after_sendVerifyEmail) 60
         (VERIFY_EMAIL_PREFIX example_config @ string_of_number (id_user alice)) \<noteq> None
   \<and> (cache_writes (fst (sendVerifyEmail example_config state_after_sendVerifyEmail 60
                          ''654321'' alice)) =
       cache_writes state_after_sendVerifyEmail @
         [DEL (VERIFY_EMAIL_PREFIX example_config @ string_of_number (id_user alice)),
          SET_EX (VERIFY_EMAIL_PREFIX example_config @ string_of_number (id_user alice))
            ''654321'' (1000 * 60 * 60)]
      \<and> redis_get (redis_del (redis state_after_sendVerifyEmail)
                       (VERIFY_EMAIL_PREFIX example_config @ string_of_number (id_user alice)))
            60 (VERIFY_EMAIL_PREFIX example_config @ string_of_number (id_user alice)) = None)
   \<and> redis_get (redis (fst (sendVerifyEmail example_config
          (fst (sendVerifyEmail example_config example_state 0 ''123456'' alice))
          60 ''654321'' alice)))
        60 (VERIFY_EMAIL_PREFIX example_config @ string_of_number (id_user alice)) =
       Some ''654321''
   \<and> (\<exists>m. verifyEmail example_config
              (fst (sendVerifyEmail example_config
                 (fst (sendVerifyEmail example_config example_state 0 ''123456'' alice))
                 60 ''654321'' alice))
              120 alice ''123456'' =
            (fst (sendVerifyEmail example_config
                 (fst (sendVerifyEmail example_config example_state 0 ''123456'' alice))
                 60 ''654321'' alice),
             \<lparr>errors = Some [\<lparr>field = ''token'', message = m\<rparr>], user = None\<rparr>)
          \<and> (m = ''Token Invalid'' \<or> m = ''Token Expired''))"
proof -
  have fresh: "''123456'' \<noteq> ''654321''" "CHR '':'' \<notin> set ''654321''"
    by simp_all
  from fresh have differ: "''123456'' \<noteq> ''654321'' \<and> CHR '':'' \<notin> set ''654321''"
    by (intro conjI)
  have known_after: "findOne_email (users state_after_forgotPassword) ''a@x.com'' = Some alice"
    unfolding state_after_forgotPassword_def
    by (rule forgotPassword_again(1) [OF example_known])
  have reset_live: "redis_get (redis state_after_forgotPassword) 60
         (FORGOT_PASSWORD_PREFIX example_config @ ''a@x.com'') \<noteq> None"
    unfolding state_after_forgotPassword_def
    by (simp add: forgotPassword_again(2) [OF example_known])
  have verify_live: "redis_get (redis state_after_sendVerifyEmail) 60
         (VERIFY_EMAIL_PREFIX example_config @ string_of_number (id_user alice)) \<noteq> None"
    unfolding state_after_sendVerifyEmail_def
    by (simp add: sendVerifyEmail_again)
  note reset = reissue_replaces_code
    [where s = example_state and e = "''a@x.com''" and u = alice and cfg = example_config
       and now = 0 and otp = "''123456''" and now' = 60 and otp' = "''654321''"
       and later = 120 and pw = "''pw2''" and up = alice, THEN conjunct1, THEN mp,
     OF example_known]
  note reset_again = reissue_replaces_code
    [where s = state_after_forgotPassword and e = "''a@x.com''" and u = alice
       and cfg = example_config and now = 60 and otp = "''654321''",
     THEN conjunct1, THEN mp, OF known_after]
  note resend = reissue_replaces_code
    [where s = example_state and cfg = example_config
       and now = 0 and otp = "''123456''" and now' = 60 and otp' = "''654321''"
       and later = 120 and up = alice, THEN conjunct2]
  note resend_again = reissue_replaces_code
    [where s = state_after_sendVerifyEmail and cfg = example_config
       and now = 60 and otp = "''654321''" and up = alice, THEN conjunct2]
  show ?thesis
    by (intro conjI example_known fresh example_no_entries reset_live verify_live
          reset [THEN conjunct2, THEN conjunct1, THEN mp, OF example_no_entries]
          reset_again [THEN conjunct1, THEN mp, OF reset_live, THEN conjunct1]
          reset_again [THEN conjunct1, THEN mp, OF reset_live, THEN conjunct2]
          reset [THEN conjunct2, THEN conjunct2, THEN conjunct2, THEN conjunct2, THEN conjunct1]
          reset [THEN conjunct2, THEN conjunct2, THEN conjunct2, THEN conjunct2, THEN conjunct2,
            THEN mp, OF differ]
          resend [THEN conjunct2, THEN conjunct1, THEN mp, OF example_no_entries]
          resend_again [THEN conjunct1, THEN mp, OF verify_live, THEN conjunct1]
          resend_again [THEN conjunct1, THEN mp, OF verify_live, THEN conjunct2]
          resend [THEN conjunct2, THEN conjunct2, THEN conjunct2, THEN conjunct2, THEN conjunct1]
          resend [THEN conjunct2, THEN conjunct2, THEN conjunct2, THEN conjunct2, THEN conjunct2,
            THEN mp, OF fresh(1)])
qed

text \<open>
  C7 without the condition on the second code does not hold: nothing keeps
  \<open>generateOTP\<close> from drawing the same code again. When the second issuance draws the
  code of the first, the first code still verifies: it resets the password, and it
  verifies the e-mail address.
\<close>

theorem reissue_same_code_counterexample:
  "snd (snd (changeForgotPassword example_config
       (fst (forgotPassword example_config
          (fst (forgotPassword example_config example_state 0 ''123456'' ''a@x.com''))
          60 ''123456'' ''a@x.com''))
       120 ''a@x.com'' ''123456'' ''pw2'')) =
     Returned (auth_response example_config 120
       (alice\<lparr>password := argon2_hash example_config ''pw2'',
              token_version := token_version alice + 1\<rparr>))
   \<and> errors (auth_response example_config 120
       (alice\<lparr>password := argon2_hash example_config ''pw2'',
              token_version := token_version alice + 1\<rparr>)) = None
   \<and> snd (verifyEmail example_config
       (fst (sendVerifyEmail example_config
          (fst (sendVerifyEmail example_config example_state 0 ''123456'' alice))
          60 ''123456'' alice))
       120 alice ''123456'') =
     \<lparr>errors = None, user = Some (alice\<lparr>verified := True\<rparr>)\<rparr>"
proof (intro conjI)
  let ?s1 = "fst (forgotPassword example_config example_state 0 ''123456'' ''a@x.com'')"
  let ?s2 = "fst (forgotPassword example_config ?s1 60 ''123456'' ''a@x.com'')"
  note known1 = forgotPassword_again(1) [OF example_known, of example_config 0 "''123456''"]
  have entry: "redis_get (redis ?s2) 120 (FORGOT_PASSWORD_PREFIX example_config @ ''a@x.com'') =
      Some (string_of_number (id_user alice) @ '':'' @ ''123456'')"
    by (simp add: forgotPassword_again(2) [OF known1])
  have stored: "findOne_id (users ?s2) (id_user alice) = Some alice"
    by (simp only: forgotPassword_users example_stored)
  have colon: "CHR '':'' \<notin> set ''123456''" by simp
  show "snd (snd (changeForgotPassword example_config ?s2 120 ''a@x.com'' ''123456'' ''pw2'')) =
     Returned (auth_response example_config 120
       (alice\<lparr>password := argon2_hash example_config ''pw2'',
              token_version := token_version alice + 1\<rparr>))"
    unfolding changeForgotPassword_match [OF entry colon stored] by simp
  show "errors (auth_response example_config 120
       (alice\<lparr>password := argon2_hash example_config ''pw2'',
              token_version := token_version alice + 1\<rparr>)) = None"
    by (simp add: auth_response_def)
  let ?v1 = "fst (sendVerifyEmail example_config example_state 0 ''123456'' alice)"
  let ?v2 = "fst (sendVerifyEmail example_config ?v1 60 ''123456'' alice)"
  have ventry: "redis_get (redis ?v2) 120
      (VERIFY_EMAIL_PREFIX example_config @ string_of_number (id_user alice)) = Some ''123456''"
    by (simp add: sendVerifyEmail_again)
  have nonempty: "''123456'' \<noteq> []" by simp
  show "snd (verifyEmail example_config ?v2 120 alice ''123456'') =
     \<lparr>errors = None, user = Some (alice\<lparr>verified := True\<rparr>)\<rparr>"
    unfolding verifyEmail_match [OF ventry nonempty] snd_conv
    by (simp only: sendVerifyEmail_users example_stored option.map)
qed

text \<open>
  C8. \<open>forgotPassword\<close> for an e-mail address that no stored user has returns \<open>true\<close>
  and leaves the state as it was: no entry is written to the cache and no e-mail is sent.
\<close>

theorem forgotPassword_unknown_email:
  assumes "findOne_email (users s) e = None"
  shows "forgotPassword cfg s now otp e = (s, True)"
  using assms by (simp add: forgotPassword_def)

theorem forgotPassword_unknown_email_witness:
  "findOne_email (users example_state) ''nobody@x.com'' = None
   \<and> forgotPassword example_config example_state 0 ''123456'' ''nobody@x.com'' =
       (example_state, True)"
proof -
  have unknown: "findOne_email (users example_state) ''nobody@x.com'' = None"
    by (simp add: findOne_email_def example_state_def alice_def)
  from forgotPassword_unknown_email [OF unknown] unknown show ?thesis by simp
qed

section \<open>Credentials\<close>

text \<open>
  C6. \<open>login\<close> with invalid credentials returns the same response whether no stored
  user has the e-mail address or the password check fails: the one error with the field
  \<open>email\<close> and the message \<open>Invalid Email or Password\<close>, no cookie, and the state as
  it was.
\<close>

theorem login_invalid_credentials:
  assumes "findOne_email (users s) e = None \<or>
           (\<exists>u. findOne_email (users s) e = Some u \<and> \<not> argon2_verify cfg (password u) p)"
  shows "login cfg s now e p =
           (s, [], \<lparr>errors = Some [\<lparr>field = ''email'', message = ''Invalid Email or Password''\<rparr>],
                    user = None, auth = None\<rparr>)"
  using assms by (auto simp: login_def field_error_def)

theorem login_invalid_credentials_witness:
  "findOne_email (users example_state) ''c@x.com'' = None \<and>
   findOne_email (users example_state) ''a@x.com'' = Some alice \<and>
   \<not> argon2_verify example_config (password alice) ''pw2'' \<and>
   login example_config example_state 0 ''c@x.com'' ''pw1'' =
     login example_config example_state 0 ''a@x.com'' ''pw2'' \<and>
   snd (snd (login example_config example_state 0 ''a@x.com'' ''pw2'')) =
     \<lparr>errors = Some [\<lparr>field = ''email'', message = ''Invalid Email or Password''\<rparr>],
      user = None, auth = None\<rparr>"
proof -
  have unknown: "findOne_email (users example_state) ''c@x.com'' = None"
    by (simp add: example_state_def alice_def findOne_email_def)
  have wrong: "\<not> argon2_verify example_config (password alice) ''pw2''"
    by (simp add: example_config_def alice_def)
  from login_invalid_credentials [of example_state "''c@x.com''" example_config "''pw1''" 0]
       login_invalid_credentials [of example_state "''a@x.com''" example_config "''pw2''" 0]
       unknown example_known wrong
  show ?thesis by simp
qed

text \<open>
  C9. \<open>changePassword\<close> with the correct old password updates the password of the rows
  with the identifier of the authenticated user and nothing else: \<open>token_version\<close>,
  identifier, e-mail address, user name and \<open>verified\<close> of every row, the cache and the
  e-mails sent stay as they were, and the route \<open>/refresh_token\<close> answers every request
  with the status it had before.
\<close>

theorem changePassword_changes_password_only:
  assumes "argon2_verify cfg (password user_payload) oldPassword"
  shows "users (fst (changePassword cfg s user_payload oldPassword newPassword)) =
           map (\<lambda>u. if id_user u = id_user user_payload
                     then u\<lparr>password := argon2_hash cfg newPassword\<rparr> else u) (users s)
         \<and> map token_version (users (fst (changePassword cfg s user_payload oldPassword newPassword))) =
             map token_version (users s)
         \<and> map id_user (users (fst (changePassword cfg s user_payload oldPassword newPassword))) =
             map id_user (users s)
         \<and> map email (users (fst (changePassword cfg s user_payload oldPassword newPassword))) =
             map email (users s)
         \<and> map username (users (fst (changePassword cfg s user_payload oldPassword newPassword))) =
             map username (users s)
         \<and> map verified (users (fst (changePassword cfg s user_payload oldPassword newPassword))) =
             map verified (users s)
         \<and> redis (fst (changePassword cfg s user_payload oldPassword newPassword)) = redis s
         \<and> outbox (fst (changePassword cfg s user_payload oldPassword newPassword)) = outbox s
         \<and> snd (changePassword cfg s user_payload oldPassword newPassword) =
             \<lparr>errors = None, user = Some user_payload\<rparr>
         \<and> status (snd (snd (refreshRoute cfg
               (fst (changePassword cfg s user_payload oldPassword newPassword)) now req))) =
             status (snd (snd (refreshRoute cfg s now req)))"
proof -
  let ?f = "\<lambda>u. u\<lparr>password := argon2_hash cfg newPassword\<rparr>"
  let ?g = "\<lambda>u. if id_user u = id_user user_payload then ?f u else u"
  have result: "changePassword cfg s user_payload oldPassword newPassword =
      (s\<lparr>users := map ?g (users s)\<rparr>, \<lparr>errors = None, user = Some user_payload\<rparr>)"
    using assms by (simp add: changePassword_def update_where_id_fst)
  have found: "findOne_id (map ?g (users s)) i = map_option ?g (findOne_id (users s) i)" for i
    by (rule findOne_id_map) simp
  have same: "map_option (\<lambda>u. (id_user u, token_version u)) (findOne_id (map ?g (users s)) i) =
              map_option (\<lambda>u. (id_user u, token_version u)) (findOne_id (users s) i)" for i
    unfolding found by (cases "findOne_id (users s) i") auto
  have refresh: "status (snd (snd (refreshRoute cfg (s\<lparr>users := map ?g (users s)\<rparr>) now req))) =
             status (snd (snd (refreshRoute cfg s now req)))"
    using refreshRoute_same_versions [of "s\<lparr>users := map ?g (users s)\<rparr>" s cfg now req] same
    by simp
  show ?thesis
    unfolding result fst_conv snd_conv using refresh by (simp add: comp_def)
qed

theorem changePassword_changes_password_only_witness:
  "argon2_verify example_config (password alice) ''pw1''
   \<and> users (fst (changePassword example_config example_state alice ''pw1'' ''pw2'')) =
       map (\<lambda>u. if id_user u = id_user alice
                 then u\<lparr>password := argon2_hash example_config ''pw2''\<rparr> else u)
         (users example_state)
   \<and> map token_version (users (fst (changePassword example_config example_state alice ''pw1'' ''pw2''))) =
       map token_version (users example_state)
   \<and> status (snd (snd (refreshRoute example_config
         (fst (changePassword example_config example_state alice ''pw1'' ''pw2'')) 100
         \<lparr>cookies = [''qid'' \<mapsto> createRefreshToken example_config 0 alice]\<rparr>))) =
       status (snd (snd (refreshRoute example_config example_state 100
         \<lparr>cookies = [''qid'' \<mapsto> createRefreshToken example_config 0 alice]\<rparr>)))"
proof -
  have correct: "argon2_verify example_config (password alice) ''pw1''"
    by (simp add: example_config_def alice_def)
  note changed = changePassword_changes_password_only
    [OF correct, where s = example_state and newPassword = "''pw2''" and now = 100
       and req = "\<lparr>cookies = [''qid'' \<mapsto> createRefreshToken example_config 0 alice]\<rparr>"]
  show ?thesis
    by (intro conjI correct changed [THEN conjunct1]
          changed [THEN conjunct2, THEN conjunct1]
          changed [THEN conjunct2, THEN conjunct2, THEN conjunct2, THEN conjunct2,
            THEN conjunct2, THEN conjunct2, THEN conjunct2, THEN conjunct2, THEN conjunct2])
qed

text \<open>
  C10. When the insertion of the row fails in \<open>register\<close>, whatever the error, the
  resolver returns one field error and nothing else: the state is as it was (no code in
  the cache, no e-mail sent), no cookie is set and no access token is issued.
\<close>

theorem register_failure_no_effects:
  assumes "User_save cfg (users s) e n (argon2_hash cfg pw) = Inl err"
  shows "\<exists>f m. register cfg s now otp e n pw =
           (s, [], \<lparr>errors = Some [\<lparr>field = f, message = m\<rparr>], user = None, auth = None\<rparr>)
         \<and> (f, m) \<in> {(''username'', ''Username Taken''), (''email'', ''Email in Use''),
                       (''username'', ''Server Error: Unable to Create User'')}"
  using assms
  by (cases err) (auto simp: register_def register_catch_def field_error_def)

theorem register_failure_no_effects_witness:
  "User_save example_config (users example_state) ''b@x.com'' ''a''
       (argon2_hash example_config ''pw'') =
     Inl (QueryFailedError ''23505'' ''Key (username)=(a) already exists.'')
   \<and> (\<exists>f m. register example_config example_state 0 ''123456'' ''b@x.com'' ''a'' ''pw'' =
           (example_state, [],
            \<lparr>errors = Some [\<lparr>field = f, message = m\<rparr>], user = None, auth = None\<rparr>)
         \<and> (f, m) \<in> {(''username'', ''Username Taken''), (''email'', ''Email in Use''),
                       (''username'', ''Server Error: Unable to Create User'')})
   \<and> (\<exists>f m. register (example_config\<lparr>User_save := \<lambda>us e n h. Inl (OtherError ''ECONNREFUSED'')\<rparr>)
                 empty_state 0 ''123456'' ''b@x.com'' ''b'' ''pw'' =
           (empty_state, [],
            \<lparr>errors = Some [\<lparr>field = f, message = m\<rparr>], user = None, auth = None\<rparr>)
         \<and> (f, m) \<in> {(''username'', ''Username Taken''), (''email'', ''Email in Use''),
                       (''username'', ''Server Error: Unable to Create User'')})"
proof -
  have taken: "User_save example_config (users example_state) ''b@x.com'' ''a''
       (argon2_hash example_config ''pw'') =
     Inl (QueryFailedError ''23505'' ''Key (username)=(a) already exists.'')"
    by (simp add: example_config_def example_state_def example_save_def alice_def)
  have lost: "User_save (example_config\<lparr>User_save := \<lambda>us e n h. Inl (OtherError ''ECONNREFUSED'')\<rparr>)
       (users empty_state) ''b@x.com'' ''b''
       (argon2_hash (example_config\<lparr>User_save := \<lambda>us e n h. Inl (OtherError ''ECONNREFUSED'')\<rparr>) ''pw'') =
     Inl (OtherError ''ECONNREFUSED'')"
    by simp
  from taken register_failure_no_effects [OF taken] register_failure_no_effects [OF lost]
  show ?thesis by (intro conjI)
qed

end
